theory Spec2Isabelle
  imports Complex_Main "HOL-Library.Word" "HOL-Library.AList"
begin

section \<open>JavaScript values\<close>

text \<open>
  A JavaScript string is a sequence of UTF-16 code units. ASCII literals of the source
  are written \<open>js ''...''\<close>; Cyrillic text is written as a list of code units.
\<close>

type_synonym jsstring = "16 word list"

definition js :: "string \<Rightarrow> jsstring" where
  "js s = map (\<lambda>c. of_char c) s"

text \<open>
  A number is an IEEE double: a finite value, one of the two infinities, or NaN. The
  validators and the segmenter only compare, subtract and copy numbers; finite values
  are modelled as reals.
\<close>

datatype number = Finite real | PosInfinity | NegInfinity | NaN

text \<open>
  The values the validators can meet. \<open>JObj\<close> lists an object's own properties in
  enumeration order. \<open>JBuiltin n\<close> is the member of \<open>Object.prototype\<close> that a
  plain object inherits under the name \<open>n\<close> (the function \<open>Object\<close> for
  \<open>constructor\<close>, the prototype object itself for \<open>__proto__\<close>, a method
  otherwise); two such values are the same object exactly when the names agree.
\<close>

datatype jsv =
    JUndefined
  | JNull
  | JBool bool
  | JNum number
  | JStr jsstring
  | JArr "jsv list"
  | JObj "(jsstring \<times> jsv) list"
  | JBuiltin jsstring

datatype error = ValidationError | TypeError | UpstreamError

fun typeof :: "jsv \<Rightarrow> string" where
  "typeof JUndefined = ''undefined''"
| "typeof JNull = ''object''"
| "typeof (JBool b) = ''boolean''"
| "typeof (JNum n) = ''number''"
| "typeof (JStr s) = ''string''"
| "typeof (JArr xs) = ''object''"
| "typeof (JObj kvs) = ''object''"
| "typeof (JBuiltin n) = (if n = js ''__proto__'' then ''object'' else ''function'')"

fun truthy :: "jsv \<Rightarrow> bool" where
  "truthy JUndefined = False"
| "truthy JNull = False"
| "truthy (JBool b) = b"
| "truthy (JNum n) = (n \<noteq> NaN \<and> n \<noteq> Finite 0)"
| "truthy (JStr s) = (s \<noteq> [])"
| "truthy (JArr xs) = True"
| "truthy (JObj kvs) = True"
| "truthy (JBuiltin n) = True"

text \<open>
  \<open>x.name\<close> for the fixed property names the source reads (\<open>fullText\<close>,
  \<open>chunks\<close>, \<open>type\<close>, ...). None of them is an array index, \<open>length\<close> or an
  inherited member, so the read is a lookup among the own properties of an object and
  \<open>undefined\<close> on an array. Every read in the source happens behind a check that
  the receiver is a non-null object.
\<close>

fun getProp :: "jsv \<Rightarrow> jsstring \<Rightarrow> jsv" where
  "getProp (JObj kvs) k = (case map_of kvs k of Some v \<Rightarrow> v | None \<Rightarrow> JUndefined)"
| "getProp v k = JUndefined"

text \<open>The operators \<open>a ?? b\<close> and \<open>a || b\<close>.\<close>

definition nullishOr :: "jsv \<Rightarrow> jsv \<Rightarrow> jsv" where
  "nullishOr a b = (if a = JUndefined \<or> a = JNull then b else a)"

definition logicalOr :: "jsv \<Rightarrow> jsv \<Rightarrow> jsv" where
  "logicalOr a b = (if truthy a then a else b)"

text \<open>\<open>Array.prototype.map\<close> with a callback that may throw: the first exception wins.\<close>

fun mapE :: "('a \<Rightarrow> error + 'b) \<Rightarrow> 'a list \<Rightarrow> error + 'b list" where
  "mapE f [] = Inr []"
| "mapE f (x # xs) =
     (case f x of
        Inl e \<Rightarrow> Inl e
      | Inr y \<Rightarrow> (case mapE f xs of Inl e \<Rightarrow> Inl e | Inr ys \<Rightarrow> Inr (y # ys)))"

text \<open>\<open>Array.prototype.every\<close>: stops at the first element whose test is false.\<close>

fun every :: "('a \<Rightarrow> error + bool) \<Rightarrow> 'a list \<Rightarrow> error + bool" where
  "every p [] = Inr True"
| "every p (x # xs) =
     (case p x of
        Inl e \<Rightarrow> Inl e
      | Inr b \<Rightarrow> if b then every p xs else Inr False)"

text \<open>\<open>Array.from(new Set(xs))\<close>: the first occurrence of every value, in order.\<close>

definition arrayFromSet :: "'a list \<Rightarrow> 'a list" where
  "arrayFromSet xs = fold (\<lambda>x acc. if x \<in> set acc then acc else acc @ [x]) xs []"

subsection \<open>Strings\<close>

text \<open>The code units \<open>String.prototype.trim\<close> strips and \<open>\s\<close> matches.\<close>

definition isWhiteSpace :: "16 word \<Rightarrow> bool" where
  "isWhiteSpace c \<longleftrightarrow>
     c \<in> {0x9, 0xA, 0xB, 0xC, 0xD, 0x20, 0xA0, 0x1680, 0x2028, 0x2029, 0x202F,
          0x205F, 0x3000, 0xFEFF}
     \<or> (0x2000 \<le> c \<and> c \<le> 0x200A)"

definition trim :: "jsstring \<Rightarrow> jsstring" where
  "trim s = rev (dropWhile isWhiteSpace (rev (dropWhile isWhiteSpace s)))"

text \<open>\<open>CYRILLIC_REGEX = /[\<dots>]/\<close> over U+0410..U+044F, U+0401, U+0451; \<open>LATIN_REGEX = /[A-Za-z]/\<close>.\<close>

definition isCyrillic :: "16 word \<Rightarrow> bool" where
  "isCyrillic c \<longleftrightarrow>
     (0x410 \<le> c \<and> c \<le> 0x42F) \<or> (0x430 \<le> c \<and> c \<le> 0x44F) \<or> c = 0x401 \<or> c = 0x451"

definition isLatin :: "16 word \<Rightarrow> bool" where
  "isLatin c \<longleftrightarrow> (0x41 \<le> c \<and> c \<le> 0x5A) \<or> (0x61 \<le> c \<and> c \<le> 0x7A)"

definition CYRILLIC_REGEX_test :: "jsstring \<Rightarrow> bool" where
  "CYRILLIC_REGEX_test s = list_ex isCyrillic s"

definition LATIN_REGEX_test :: "jsstring \<Rightarrow> bool" where
  "LATIN_REGEX_test s = list_ex isLatin s"

text \<open>
  \<open>toLowerCase\<close> and \<open>toUpperCase\<close> are the runtime's Unicode case mappings. The
  model takes them as a parameter, so that what is proved holds for whatever the
  runtime computes.
\<close>

record casing =
  toLowerCase :: "jsstring \<Rightarrow> jsstring"
  toUpperCase :: "jsstring \<Rightarrow> jsstring"

text \<open>The mappings on ASCII letters, where they agree with the runtime on ASCII strings.\<close>

definition asciiLower :: "jsstring \<Rightarrow> jsstring" where
  "asciiLower s = map (\<lambda>c. if 0x41 \<le> c \<and> c \<le> 0x5A then c + 0x20 else c) s"

definition asciiUpper :: "jsstring \<Rightarrow> jsstring" where
  "asciiUpper s = map (\<lambda>c. if 0x61 \<le> c \<and> c \<le> 0x7A then c - 0x20 else c) s"

definition asciiCasing :: casing where
  "asciiCasing = \<lparr>toLowerCase = asciiLower, toUpperCase = asciiUpper\<rparr>"

section \<open>Configuration (config/config.js)\<close>

definition cefrLevels :: "jsstring list" where
  "cefrLevels = map js [''A1'', ''A2'', ''B1'', ''B2'', ''C1'', ''C2'']"

definition videoTopics :: "jsstring list" where
  "videoTopics = map js
     [''Business'', ''Technology'', ''Science'', ''Health'', ''Education'',
      ''Entertainment'', ''Sports'', ''Travel'', ''Food'', ''Fashion'', ''Art'', ''Music'',
      ''Movies'', ''Gaming'', ''News'', ''Politics'', ''History'', ''Nature'', ''Animals'',
      ''Space'', ''Environment'', ''Social Issues'', ''Psychology'', ''Philosophy'',
      ''Lifestyle'', ''Relationships'', ''Career'', ''Finance'', ''Motivation'', ''Comedy'',
      ''Drama'', ''Documentary'', ''Tutorial'', ''Review'', ''Interview'', ''Vlog'',
      ''Challenge'', ''Story'', ''Daily Life'', ''Cooking'', ''DIY'', ''Beauty'', ''Fitness'',
      ''Product'', ''Unboxing'', ''Comparison'', ''Culture'', ''Language'', ''How-to'',
      ''Tips'', ''Reaction'', ''Prank'', ''Experiment'', ''Behind the Scenes'']"

section \<open>Data-contract validators (src/types/dataTypes.js)\<close>

text \<open>
  Every \<open>throw new ValidationError(...)\<close> is the value \<open>Inl ValidationError\<close>; the
  message and the \<open>label\<close>/\<open>index\<close> arguments that only feed it are left out.
  A call of a method that a value does not have is \<open>Inl TypeError\<close>.
\<close>

definition CEFR_LEVELS :: "jsstring list" where
  "CEFR_LEVELS = cefrLevels"

definition SPEECH_SPEEDS :: "jsstring list" where
  "SPEECH_SPEEDS = map js [''slow'', ''normal'', ''fast'']"

definition GRAMMAR_COMPLEXITIES :: "jsstring list" where
  "GRAMMAR_COMPLEXITIES = map js [''simple'', ''intermediate'', ''complex'']"

definition VOCABULARY_COMPLEXITIES :: "jsstring list" where
  "VOCABULARY_COMPLEXITIES = map js [''basic'', ''intermediate'', ''advanced'']"

definition EXERCISE_TYPES :: "jsstring list" where
  "EXERCISE_TYPES = map js [''vocabulary'', ''topic'', ''statementCheck'']"

text \<open>
  \<open>TOPIC_LOOKUP\<close> is a plain object literal filled by \<open>acc[topic.toLowerCase()] = topic\<close>.
  Assigning a string to \<open>__proto__\<close> leaves a plain object unchanged; any other
  key becomes (or overwrites) an own property.
\<close>

definition assignString :: "(jsstring \<times> jsv) list \<Rightarrow> jsstring \<Rightarrow> jsstring \<Rightarrow> (jsstring \<times> jsv) list" where
  "assignString acc k v = (if k = js ''__proto__'' then acc else AList.update k (JStr v) acc)"

definition TOPIC_LOOKUP :: "casing \<Rightarrow> (jsstring \<times> jsv) list" where
  "TOPIC_LOOKUP U = foldl (\<lambda>acc topic. assignString acc (toLowerCase U topic) topic) [] videoTopics"

text \<open>
  \<open>obj[key]\<close> with a computed key on a plain object: an own property if there is one,
  otherwise the member inherited from \<open>Object.prototype\<close>, otherwise \<open>undefined\<close>.
\<close>

definition objectPrototypeNames :: "jsstring list" where
  "objectPrototypeNames = map js
     [''constructor'', ''__defineGetter__'', ''__defineSetter__'', ''hasOwnProperty'',
      ''__lookupGetter__'', ''__lookupSetter__'', ''isPrototypeOf'',
      ''propertyIsEnumerable'', ''toString'', ''valueOf'', ''__proto__'',
      ''toLocaleString'']"

definition getComputed :: "(jsstring \<times> jsv) list \<Rightarrow> jsstring \<Rightarrow> jsv" where
  "getComputed kvs k =
     (case map_of kvs k of
        Some v \<Rightarrow> v
      | None \<Rightarrow> if k \<in> set objectPrototypeNames then JBuiltin k else JUndefined)"

definition assertString :: "jsv \<Rightarrow> error + jsstring" where
  "assertString v = (case v of JStr s \<Rightarrow> Inr (trim s) | _ \<Rightarrow> Inl ValidationError)"

definition assertNumber :: "jsv \<Rightarrow> error + number" where
  "assertNumber v =
     (case v of
        JNum n \<Rightarrow> if n = NaN then Inl ValidationError else Inr n
      | _ \<Rightarrow> Inl ValidationError)"

definition assertArray :: "jsv \<Rightarrow> error + jsv list" where
  "assertArray v = (case v of JArr xs \<Rightarrow> Inr xs | _ \<Rightarrow> Inl ValidationError)"

definition assertBoolean :: "jsv \<Rightarrow> error + bool" where
  "assertBoolean v = (case v of JBool b \<Rightarrow> Inr b | _ \<Rightarrow> Inl ValidationError)"

definition normalizeTimestamp :: "jsv \<Rightarrow> error + jsv" where
  "normalizeTimestamp timestamp =
     (case assertArray timestamp of
        Inl e \<Rightarrow> Inl e
      | Inr arr \<Rightarrow>
          if length arr \<noteq> 2 then Inl ValidationError
          else (case assertNumber (arr ! 0) of
                  Inl e \<Rightarrow> Inl e
                | Inr a \<Rightarrow>
                    (case assertNumber (arr ! 1) of
                       Inl e \<Rightarrow> Inl e
                     | Inr b \<Rightarrow> Inr (JArr [JNum a, JNum b]))))"

text \<open>The callback of \<open>chunksRaw.map\<close> in \<open>validateTranscriptionStructure\<close>.\<close>

definition validateChunk :: "jsv \<Rightarrow> error + jsv" where
  "validateChunk chunk =
     (if \<not> truthy chunk \<or> typeof chunk \<noteq> ''object'' then Inl ValidationError
      else case assertString (nullishOr (getProp chunk (js ''text'')) (JStr [])) of
             Inl e \<Rightarrow> Inl e
           | Inr text \<Rightarrow>
               (case normalizeTimestamp
                       (nullishOr (getProp chunk (js ''timestamp''))
                          (nullishOr (getProp chunk (js ''time''))
                             (JArr [JNum (Finite 0), JNum (Finite 0)]))) of
                  Inl e \<Rightarrow> Inl e
                | Inr timestamp \<Rightarrow>
                    Inr (JObj [(js ''text'', JStr text), (js ''timestamp'', timestamp)])))"

definition validateTranscriptionStructure :: "jsv \<Rightarrow> error + jsv" where
  "validateTranscriptionStructure transcription =
     (if \<not> truthy transcription \<or> typeof transcription \<noteq> ''object''
      then Inl ValidationError
      else case assertString
                  (nullishOr (getProp transcription (js ''fullText''))
                     (nullishOr (getProp transcription (js ''text'')) (JStr []))) of
             Inl e \<Rightarrow> Inl e
           | Inr fullText \<Rightarrow>
               (case logicalOr (getProp transcription (js ''chunks'')) (JArr []) of
                  JArr chunksRaw \<Rightarrow>
                    (case mapE validateChunk chunksRaw of
                       Inl e \<Rightarrow> Inl e
                     | Inr chunks \<Rightarrow>
                         Inr (JObj [(js ''fullText'', JStr fullText),
                                    (js ''text'', JStr fullText),
                                    (js ''chunks'', JArr chunks)]))
                | _ \<Rightarrow> Inl TypeError))"

definition validateTranslationStructure :: "jsv \<Rightarrow> error + jsv" where
  "validateTranslationStructure translation = validateTranscriptionStructure translation"

definition validateTranscriptionVariantsStructure :: "jsv \<Rightarrow> error + jsv" where
  "validateTranscriptionVariantsStructure transcriptionVariants =
     (if \<not> truthy transcriptionVariants \<or> typeof transcriptionVariants \<noteq> ''object''
      then Inl ValidationError
      else case validateTranscriptionStructure (getProp transcriptionVariants (js ''plain'')) of
             Inl e \<Rightarrow> Inl e
           | Inr plain \<Rightarrow>
        (case validateTranscriptionStructure (getProp transcriptionVariants (js ''phrases'')) of
             Inl e \<Rightarrow> Inl e
           | Inr phrases \<Rightarrow>
        (case validateTranscriptionStructure (getProp transcriptionVariants (js ''words'')) of
             Inl e \<Rightarrow> Inl e
           | Inr words \<Rightarrow>
               (let baseText = getProp plain (js ''fullText'') in
                if getProp phrases (js ''fullText'') \<noteq> baseText
                   \<or> getProp words (js ''fullText'') \<noteq> baseText
                then Inl ValidationError
                else Inr (JObj [(js ''plain'', plain), (js ''phrases'', phrases),
                                (js ''words'', words), (js ''fullText'', baseText)])))))"

definition validateAnalysisStructure :: "casing \<Rightarrow> jsv \<Rightarrow> error + jsv" where
  "validateAnalysisStructure U analysis =
     (if \<not> truthy analysis \<or> typeof analysis \<noteq> ''object'' then Inl ValidationError
      else case assertString (getProp analysis (js ''cefrLevel'')) of
             Inl e \<Rightarrow> Inl e
           | Inr cefrTrimmed \<Rightarrow>
        (let cefrLevel = toUpperCase U cefrTrimmed in
         if cefrLevel \<notin> set CEFR_LEVELS then Inl ValidationError
         else case assertString (getProp analysis (js ''speechSpeed'')) of
             Inl e \<Rightarrow> Inl e
           | Inr speedTrimmed \<Rightarrow>
        (let speechSpeed = toLowerCase U speedTrimmed in
         if speechSpeed \<notin> set SPEECH_SPEEDS then Inl ValidationError
         else case assertString (getProp analysis (js ''grammarComplexity'')) of
             Inl e \<Rightarrow> Inl e
           | Inr grammarTrimmed \<Rightarrow>
        (let grammarComplexity = toLowerCase U grammarTrimmed in
         if grammarComplexity \<notin> set GRAMMAR_COMPLEXITIES then Inl ValidationError
         else case assertString (getProp analysis (js ''vocabularyComplexity'')) of
             Inl e \<Rightarrow> Inl e
           | Inr vocabularyTrimmed \<Rightarrow>
        (let vocabularyComplexity = toLowerCase U vocabularyTrimmed in
         if vocabularyComplexity \<notin> set VOCABULARY_COMPLEXITIES then Inl ValidationError
         else case assertArray (getProp analysis (js ''topics'')) of
             Inl e \<Rightarrow> Inl e
           | Inr topicsRaw \<Rightarrow>
        (case mapE (\<lambda>topic.
                    case assertString topic of
                      Inl e \<Rightarrow> Inl e
                    | Inr trimmed \<Rightarrow>
                        Inr (logicalOr (getComputed (TOPIC_LOOKUP U) (toLowerCase U trimmed)) JNull))
                 topicsRaw of
             Inl e \<Rightarrow> Inl e
           | Inr mapped \<Rightarrow>
        (let topicsMapped = filter truthy mapped;
             topics = (if topicsMapped \<noteq> [] then take 3 (arrayFromSet topicsMapped)
                       else map JStr (take 3 videoTopics));
             isAdultContent =
               (if typeof (getProp analysis (js ''isAdultContent'')) = ''boolean''
                then getProp analysis (js ''isAdultContent'') else JBool False)
         in Inr (JObj [(js ''cefrLevel'', JStr cefrLevel),
                       (js ''speechSpeed'', JStr speechSpeed),
                       (js ''grammarComplexity'', JStr grammarComplexity),
                       (js ''vocabularyComplexity'', JStr vocabularyComplexity),
                       (js ''topics'', JArr topics),
                       (js ''isAdultContent'', isAdultContent)]))))))))"

text \<open>
  The own properties that \<open>{ ...exercise }\<close> copies: those of an object, and the
  index properties of an array (whose keys are the decimal indices).
\<close>

fun decimal :: "nat \<Rightarrow> jsstring" where
  "decimal n = (if n < 10 then [0x30 + of_nat n]
                else decimal (n div 10) @ [0x30 + of_nat (n mod 10)])"

fun ownProps :: "jsv \<Rightarrow> (jsstring \<times> jsv) list" where
  "ownProps (JObj kvs) = kvs"
| "ownProps (JArr xs) = zip (map decimal [0..<length xs]) xs"
| "ownProps v = []"

definition validateVocabularyExercise :: "jsv \<Rightarrow> error + unit" where
  "validateVocabularyExercise exercise =
     (case assertString (nullishOr (getProp exercise (js ''word'')) (JStr [])) of
        Inl e \<Rightarrow> Inl e
      | Inr word \<Rightarrow>
     (case assertArray (getProp exercise (js ''options'')) of
        Inl e \<Rightarrow> Inl e
      | Inr options \<Rightarrow>
          if length options < 3 \<or> length options > 4 then Inl ValidationError
          else
            (let wordHasCyrillic = CYRILLIC_REGEX_test word;
                 wordHasLatin = LATIN_REGEX_test word
             in if \<not> wordHasCyrillic \<and> \<not> wordHasLatin then Inl ValidationError
                else
                  (case every (\<lambda>option. case assertString option of
                                           Inl e \<Rightarrow> Inl e
                                         | Inr optionValue \<Rightarrow> Inr (CYRILLIC_REGEX_test optionValue))
                          options of
                     Inl e \<Rightarrow> Inl e
                   | Inr optionsAreCyrillic \<Rightarrow>
                  (case every (\<lambda>option. case assertString option of
                                           Inl e \<Rightarrow> Inl e
                                         | Inr optionValue \<Rightarrow> Inr (LATIN_REGEX_test optionValue))
                          options of
                     Inl e \<Rightarrow> Inl e
                   | Inr optionsAreLatin \<Rightarrow>
                       if wordHasLatin \<and> \<not> optionsAreCyrillic then Inl ValidationError
                       else if wordHasCyrillic \<and> \<not> optionsAreLatin then Inl ValidationError
                       else Inr ())))))"

definition validateNonVocabularyOptions :: "jsv \<Rightarrow> error + unit" where
  "validateNonVocabularyOptions exercise =
     (case getProp exercise (js ''options'') of
        JArr options \<Rightarrow>
          (case mapE assertString options of Inl e \<Rightarrow> Inl e | Inr checked \<Rightarrow> Inr ())
      | _ \<Rightarrow> Inl TypeError)"

text \<open>The callback of \<open>.map\<close> in \<open>validateExercisesStructure\<close>.\<close>

definition validateExercise :: "jsv \<Rightarrow> error + jsv" where
  "validateExercise exercise =
     (if \<not> truthy exercise \<or> typeof exercise \<noteq> ''object'' then Inl ValidationError
      else case assertString (getProp exercise (js ''type'')) of
             Inl e \<Rightarrow> Inl e
           | Inr etype \<Rightarrow>
        if etype \<notin> set EXERCISE_TYPES then Inl ValidationError
        else case assertString (getProp exercise (js ''question'')) of
             Inl e \<Rightarrow> Inl e
           | Inr question \<Rightarrow>
        if \<not> CYRILLIC_REGEX_test question then Inl ValidationError
        else case assertArray (getProp exercise (js ''options'')) of
             Inl e \<Rightarrow> Inl e
           | Inr optionsRaw \<Rightarrow>
        (case mapE assertString optionsRaw of
             Inl e \<Rightarrow> Inl e
           | Inr optionStrings \<Rightarrow>
        (let options = JArr (map JStr optionStrings);
             correctAnswer = getProp exercise (js ''correctAnswer'')
         in case correctAnswer of
              JNum (Finite r) \<Rightarrow>
                if of_int \<lfloor>r\<rfloor> \<noteq> r then Inl ValidationError
                else if r < 0 \<or> r \<ge> real (length optionStrings) then Inl ValidationError
                else
                  (case (if etype = js ''vocabulary''
                         then validateVocabularyExercise
                                (JObj (AList.update (js ''options'') options (ownProps exercise)))
                         else validateNonVocabularyOptions
                                (JObj (AList.update (js ''options'') options (ownProps exercise)))) of
                     Inl e \<Rightarrow> Inl e
                   | Inr checked \<Rightarrow>
                       Inr (JObj (AList.update (js ''type'') (JStr etype)
                                 (AList.update (js ''correctAnswer'') correctAnswer
                                 (AList.update (js ''options'') options
                                 (AList.update (js ''question'') (JStr question)
                                 (ownProps exercise)))))))
            | _ \<Rightarrow> Inl ValidationError)))"

definition typeCount :: "string \<Rightarrow> jsv list \<Rightarrow> nat" where
  "typeCount t normalized = length (filter (\<lambda>ex. getProp ex (js ''type'') = JStr (js t)) normalized)"

definition validateExercisesStructure :: "jsv \<Rightarrow> error + jsv list" where
  "validateExercisesStructure exercises =
     (case assertArray exercises of
        Inl e \<Rightarrow> Inl e
      | Inr raw \<Rightarrow>
     (case mapE validateExercise raw of
        Inl e \<Rightarrow> Inl e
      | Inr normalized \<Rightarrow>
          (let vocabularyCount = typeCount ''vocabulary'' normalized;
               topicCount = typeCount ''topic'' normalized;
               statementCount = typeCount ''statementCheck'' normalized
           in if vocabularyCount < 3 \<or> vocabularyCount > 4 then Inl ValidationError
              else if topicCount \<noteq> 1 then Inl ValidationError
              else if statementCount < 1 then Inl ValidationError
              else Inr normalized)))"

definition validateProcessedVideo :: "casing \<Rightarrow> jsv \<Rightarrow> error + jsv" where
  "validateProcessedVideo U videoData =
     (if \<not> truthy videoData \<or> typeof videoData \<noteq> ''object'' then Inl ValidationError
      else case assertString (getProp videoData (js ''videoName'')) of
             Inl e \<Rightarrow> Inl e
           | Inr videoName \<Rightarrow>
        (case assertString (getProp videoData (js ''videoUrl'')) of
             Inl e \<Rightarrow> Inl e
           | Inr videoUrl \<Rightarrow>
        (case (if getProp videoData (js ''durationSeconds'') = JNull
                  \<or> getProp videoData (js ''durationSeconds'') = JUndefined
               then Inr JNull
               else map_sum id JNum (assertNumber (getProp videoData (js ''durationSeconds'')))) of
             Inl e \<Rightarrow> Inl e
           | Inr durationSeconds \<Rightarrow>
        (case validateTranscriptionVariantsStructure (getProp videoData (js ''transcription'')) of
             Inl e \<Rightarrow> Inl e
           | Inr transcription \<Rightarrow>
        (case validateTranslationStructure (getProp videoData (js ''translation'')) of
             Inl e \<Rightarrow> Inl e
           | Inr translation \<Rightarrow>
        (case validateAnalysisStructure U (getProp videoData (js ''analysis'')) of
             Inl e \<Rightarrow> Inl e
           | Inr analysis \<Rightarrow>
        (case validateExercisesStructure (getProp videoData (js ''exercises'')) of
             Inl e \<Rightarrow> Inl e
           | Inr exercises \<Rightarrow>
        (case (if getProp videoData (js ''isAdultContent'') = JUndefined
               then Inr (getProp analysis (js ''isAdultContent''))
               else map_sum id JBool (assertBoolean (getProp videoData (js ''isAdultContent'')))) of
             Inl e \<Rightarrow> Inl e
           | Inr isAdultContent \<Rightarrow>
               Inr (JObj [(js ''videoName'', JStr videoName),
                          (js ''videoUrl'', JStr videoUrl),
                          (js ''durationSeconds'', durationSeconds),
                          (js ''transcription'', transcription),
                          (js ''translation'', translation),
                          (js ''analysis'', analysis),
                          (js ''exercises'', JArr exercises),
                          (js ''isAdultContent'', isAdultContent)])))))))))"

section \<open>Translation settings (config/config.js)\<close>

text \<open>
  The environment variables the translation settings read; \<open>None\<close> is an unset
  variable.
\<close>

record env =
  GOOGLE_TRANSLATION_CHUNK_SIZE :: "jsstring option"
  GOOGLE_TRANSLATION_ATTEMPTS :: "jsstring option"
  GOOGLE_GEMINI_API_KEY :: "jsstring option"
  GOOGLE_API_KEY :: "jsstring option"

definition noOverrides :: env where
  "noOverrides = \<lparr>GOOGLE_TRANSLATION_CHUNK_SIZE = None, GOOGLE_TRANSLATION_ATTEMPTS = None,
                  GOOGLE_GEMINI_API_KEY = Some (js ''key''), GOOGLE_API_KEY = None\<rparr>"

text \<open>\<open>process.env.X || ""\<close>: an unset or empty variable reads as the empty string.\<close>

definition envOr :: "jsstring option \<Rightarrow> jsstring \<Rightarrow> jsstring" where
  "envOr v d = (case v of None \<Rightarrow> d | Some s \<Rightarrow> if s = [] then d else s)"

text \<open>
  \<open>Number.parseInt(s, 10)\<close>: leading white space, an optional sign, then the longest
  run of decimal digits; \<open>None\<close> is NaN (no digit). The value is the exact integer
  (a double is exact up to \<open>2^53\<close>).
\<close>

definition isDigit :: "16 word \<Rightarrow> bool" where
  "isDigit c \<longleftrightarrow> 0x30 \<le> c \<and> c \<le> 0x39"

definition digitsValue :: "jsstring \<Rightarrow> nat" where
  "digitsValue ds = foldl (\<lambda>acc c. 10 * acc + unat (c - 0x30)) 0 ds"

definition parseInt :: "jsstring \<Rightarrow> int option" where
  "parseInt s =
     (let t = dropWhile isWhiteSpace s;
          negative = (t \<noteq> [] \<and> hd t = 0x2D);
          rest = (if t \<noteq> [] \<and> (hd t = 0x2D \<or> hd t = 0x2B) then tl t else t);
          ds = takeWhile isDigit rest
      in if ds = [] then None
         else Some (if negative then - int (digitsValue ds) else int (digitsValue ds)))"

definition translationChunkSize :: "env \<Rightarrow> int" where
  "translationChunkSize E =
     (case parseInt (envOr (GOOGLE_TRANSLATION_CHUNK_SIZE E) []) of
        None \<Rightarrow> 40
      | Some parsed \<Rightarrow> max 1 parsed)"

definition translationAttempts :: "env \<Rightarrow> int" where
  "translationAttempts E =
     (case parseInt (envOr (GOOGLE_TRANSLATION_ATTEMPTS E) []) of
        None \<Rightarrow> 3
      | Some parsed \<Rightarrow> max 1 parsed)"

definition geminiApiKey :: "env \<Rightarrow> jsstring" where
  "geminiApiKey E = envOr (GOOGLE_GEMINI_API_KEY E) (envOr (GOOGLE_API_KEY E) [])"

section \<open>Translation coordinator (translation/translator.js)\<close>

definition DEFAULT_CHUNK_SIZE :: "env \<Rightarrow> int" where
  "DEFAULT_CHUNK_SIZE E = (if translationChunkSize E = 0 then 60 else translationChunkSize E)"

definition MAX_ATTEMPTS :: "env \<Rightarrow> int" where
  "MAX_ATTEMPTS E = (if translationAttempts E = 0 then 3 else translationAttempts E)"

text \<open>
  The loop of \<open>chunkArray\<close>, \<open>for (i = 0; i < items.length; i += chunkSize)\<close>. With
  \<open>chunkSize = 0\<close> the counter never advances and the loop does not end: that run
  is \<open>None\<close>.
\<close>

function chunkLoop :: "'a list \<Rightarrow> nat \<Rightarrow> nat \<Rightarrow> 'a list list \<Rightarrow> 'a list list option" where
  "chunkLoop items chunkSize i chunks =
     (if i < length items
      then (if chunkSize = 0 then None
            else chunkLoop items chunkSize (i + chunkSize)
                   (chunks @ [take chunkSize (drop i items)]))
      else Some chunks)"
  by pat_completeness auto
termination
  by (relation "measure (\<lambda>(items, chunkSize, i, chunks). length items - i)") auto

definition chunkArray :: "'a list \<Rightarrow> nat \<Rightarrow> 'a list list option" where
  "chunkArray items chunkSize =
     (if length items \<le> chunkSize then Some [items] else chunkLoop items chunkSize 0 [])"

text \<open>
  The language model is an oracle: the \<open>n\<close>-th call of \<open>generateContent\<close> either
  throws or answers with a text, whatever the prompt was. The prompts (and the context
  lines that only feed them) are therefore not modelled. \<open>extractJson\<close> stands for
  \<open>match(/\[[\s\S]*\]/)\<close>, \<open>jsonrepair\<close> and \<open>JSON.parse\<close> on a response text:
  the parsed value, or the exception one of them throws.
\<close>

datatype reply = Rejects | Responds jsstring

record externals =
  generateContent :: "nat \<Rightarrow> reply"
  extractJson :: "jsstring \<Rightarrow> error + jsv"

text \<open>An entry \<open>{text, index}\<close> of the normalized and of the aligned list.\<close>

record lineEntry =
  lineText :: jsstring
  lineIndex :: real

text \<open>\<open>entry.text || ""\<close> on a validated chunk, whose \<open>text\<close> is a string.\<close>

definition textOf :: "jsv \<Rightarrow> jsstring" where
  "textOf chunk = (case getProp chunk (js ''text'') of JStr s \<Rightarrow> s | _ \<Rightarrow> [])"

text \<open>
  \<open>STRIP_WRAPPING_QUOTES = /^["\<dots>](.*)["\<dots>]$/\<close> replaced by \<open>$1\<close>: the quotes are
  U+0022, U+201C, U+201D, and \<open>.\<close> does not match a line terminator.
\<close>

definition isWrappingQuote :: "16 word \<Rightarrow> bool" where
  "isWrappingQuote c \<longleftrightarrow> c = 0x22 \<or> c = 0x201C \<or> c = 0x201D"

definition isLineTerminator :: "16 word \<Rightarrow> bool" where
  "isLineTerminator c \<longleftrightarrow> c = 0xA \<or> c = 0xD \<or> c = 0x2028 \<or> c = 0x2029"

definition stripWrappingQuotes :: "jsstring \<Rightarrow> jsstring" where
  "stripWrappingQuotes s =
     (if 2 \<le> length s \<and> isWrappingQuote (hd s) \<and> isWrappingQuote (last s)
         \<and> \<not> list_ex isLineTerminator (butlast (tl s))
      then butlast (tl s) else s)"

text \<open>\<open>text.replace(/\s+/g, " ")\<close>.\<close>

fun collapseWhitespace :: "jsstring \<Rightarrow> jsstring" where
  "collapseWhitespace [] = []"
| "collapseWhitespace [c] = (if isWhiteSpace c then [0x20] else [c])"
| "collapseWhitespace (c # d # cs) =
     (if isWhiteSpace c
      then (if isWhiteSpace d then collapseWhitespace (d # cs)
            else 0x20 # collapseWhitespace (d # cs))
      else c # collapseWhitespace (d # cs))"

definition normalizeWhitespace :: "jsstring \<Rightarrow> jsstring" where
  "normalizeWhitespace text = (if text = [] then [] else trim (collapseWhitespace text))"

text \<open>
  \<open>translateSingleLineWithGemini\<close>: no call for an empty source line; an exception
  of the call is caught and gives the empty string. The second component is the number
  of oracle calls made so far.
\<close>

definition translateSingleLineWithGemini :: "externals \<Rightarrow> jsstring \<Rightarrow> nat \<Rightarrow> jsstring \<times> nat" where
  "translateSingleLineWithGemini X text n =
     (if text = [] then ([], n)
      else case generateContent X n of
             Rejects \<Rightarrow> ([], Suc n)
           | Responds t \<Rightarrow>
               (let responseText = trim t
                in if responseText = [] then ([], Suc n)
                   else (normalizeWhitespace (trim (stripWrappingQuotes responseText)), Suc n)))"

text \<open>
  \<open>payload = chunk.map((entry, index) => ({index: offset + index, text: entry.text}))\<close>.
\<close>

definition payload :: "jsv list \<Rightarrow> nat \<Rightarrow> lineEntry list" where
  "payload chunk offset =
     map (\<lambda>index. \<lparr>lineText = textOf (chunk ! index), lineIndex = real (offset + index)\<rparr>)
         [0..<length chunk]"

text \<open>
  The callback of \<open>parsed.map\<close>. Reading \<open>payload[index].index\<close> beyond the
  payload throws.
\<close>

definition normalizeItem :: "jsv list \<Rightarrow> nat \<Rightarrow> jsv \<times> nat \<Rightarrow> error + lineEntry" where
  "normalizeItem chunk offset p =
     (let item = fst p; index = snd p
      in if \<not> truthy item \<or> typeof item \<noteq> ''object'' then Inl ValidationError
         else
           (let rawText = (case getProp item (js ''text'') of JStr s \<Rightarrow> trim s | _ \<Rightarrow> []);
                text = trim (stripWrappingQuotes rawText)
            in case (case getProp item (js ''index'') of
                       JNum (Finite r) \<Rightarrow> Inr r
                     | _ \<Rightarrow> if index < length (payload chunk offset)
                            then Inr (lineIndex (payload chunk offset ! index))
                            else Inl TypeError) of
                 Inl e \<Rightarrow> Inl e
               | Inr indexValue \<Rightarrow>
                   Inr \<lparr>lineText = (if text \<noteq> [] then text
                                    else if index < length chunk then textOf (chunk ! index)
                                    else []),
                        lineIndex = indexValue\<rparr>))"

text \<open>Padding with the source lines, or truncating, to the length of the batch.\<close>

definition padOrTruncate :: "jsv list \<Rightarrow> nat \<Rightarrow> lineEntry list \<Rightarrow> lineEntry list" where
  "padOrTruncate chunk offset normalized =
     (if length normalized < length chunk
      then normalized @ map (\<lambda>idx. \<lparr>lineText = textOf (chunk ! idx),
                                     lineIndex = lineIndex (payload chunk offset ! idx)\<rparr>)
                            [length normalized..<length chunk]
      else if length normalized > length chunk then take (length chunk) normalized
      else normalized)"

text \<open>The \<open>forEach\<close> that replaces a blank text by the source line.\<close>

definition fillBlank :: "jsv list \<Rightarrow> lineEntry \<times> nat \<Rightarrow> lineEntry" where
  "fillBlank chunk p =
     (let entry = fst p; index = snd p
      in if lineText entry = [] \<or> trim (lineText entry) = []
         then entry\<lparr>lineText := (if index < length chunk then textOf (chunk ! index) else [])\<rparr>
         else entry)"

text \<open>
  The \<open>Map\<close> from index to entry: the first entry of an index stays, unless its text
  is blank and a later one is not.
\<close>

definition byIndexStep :: "(real \<rightharpoonup> lineEntry) \<Rightarrow> lineEntry \<Rightarrow> (real \<rightharpoonup> lineEntry)" where
  "byIndexStep byIndex entry =
     (case byIndex (lineIndex entry) of
        None \<Rightarrow> byIndex(lineIndex entry \<mapsto> entry)
      | Some existing \<Rightarrow>
          if (lineText existing = [] \<or> trim (lineText existing) = [])
             \<and> lineText entry \<noteq> [] \<and> trim (lineText entry) \<noteq> []
          then byIndex(lineIndex entry \<mapsto> entry)
          else byIndex)"

text \<open>The callback of \<open>expectedIndices.map((expectedIndex, localIdx) => ...)\<close>.\<close>

definition alignEntry :: "jsv list \<Rightarrow> (real \<rightharpoonup> lineEntry) \<Rightarrow> real \<times> nat \<Rightarrow> lineEntry" where
  "alignEntry chunk byIndex p =
     (let expectedIndex = fst p; localIdx = snd p;
          fallbackText = (if localIdx < length chunk then textOf (chunk ! localIdx) else [])
      in \<lparr>lineText = (case byIndex expectedIndex of
                         Some fromMap \<Rightarrow>
                           if lineText fromMap \<noteq> [] \<and> trim (lineText fromMap) \<noteq> []
                           then trim (lineText fromMap) else fallbackText
                       | None \<Rightarrow> fallbackText),
          lineIndex = expectedIndex\<rparr>)"

text \<open>
  The loop over the aligned entries: a line without Cyrillic letters is retried on its
  own. The arguments are the aligned entries still to visit, paired with their source
  chunks.
\<close>

fun retryLoop :: "externals \<Rightarrow> (lineEntry \<times> jsv) list \<Rightarrow> nat \<Rightarrow> lineEntry list \<times> nat" where
  "retryLoop X [] n = ([], n)"
| "retryLoop X (p # rest) n =
     (let source = textOf (snd p);
          current = (if lineText (fst p) = [] then (fst p)\<lparr>lineText := source\<rparr> else fst p);
          step = (if \<not> CYRILLIC_REGEX_test (lineText current)
                  then (let r = translateSingleLineWithGemini X source n
                        in if fst r \<noteq> [] \<and> CYRILLIC_REGEX_test (fst r)
                           then (current\<lparr>lineText := fst r\<rparr>, snd r)
                           else (current\<lparr>lineText := (if lineText current \<noteq> [] then lineText current
                                                       else source)\<rparr>, snd r))
                  else (current, n));
          done = (fst step)\<lparr>lineText := normalizeWhitespace (lineText (fst step))\<rparr>;
          more = retryLoop X rest (snd step)
      in (done # fst more, snd more))"

text \<open>One pass of the body of the attempt loop, from the call to \<open>return aligned\<close>.\<close>

definition attemptOnce :: "externals \<Rightarrow> jsv list \<Rightarrow> nat \<Rightarrow> nat \<Rightarrow> (error + lineEntry list) \<times> nat" where
  "attemptOnce X chunk offset n =
     (case generateContent X n of
        Rejects \<Rightarrow> (Inl UpstreamError, Suc n)
      | Responds responseText \<Rightarrow>
          if responseText = [] then (Inl ValidationError, Suc n)
          else case extractJson X responseText of
                 Inl e \<Rightarrow> (Inl e, Suc n)
               | Inr (JArr parsed) \<Rightarrow>
                   (case mapE (normalizeItem chunk offset) (zip parsed [0..<length parsed]) of
                      Inl e \<Rightarrow> (Inl e, Suc n)
                    | Inr items \<Rightarrow>
                        (let normalized = map (fillBlank chunk)
                                            (zip (padOrTruncate chunk offset items)
                                                 [0..<length (padOrTruncate chunk offset items)]);
                             expectedIndices = map lineIndex (payload chunk offset);
                             byIndex = foldl byIndexStep Map.empty normalized;
                             aligned = map (alignEntry chunk byIndex)
                                           (zip expectedIndices [0..<length expectedIndices]);
                             r = retryLoop X (zip aligned chunk) (Suc n)
                         in (Inr (fst r), snd r)))
               | Inr other \<Rightarrow> (Inl ValidationError, Suc n))"


text \<open>
  The attempt loop of \<open>translateChunkWithGemini\<close>: \<open>attemptsLeft\<close> passes remain,
  \<open>lastError\<close> is what the final \<open>throw\<close> raises.
\<close>

fun attemptLoop :: "externals \<Rightarrow> jsv list \<Rightarrow> nat \<Rightarrow> nat \<Rightarrow> error \<Rightarrow> nat \<Rightarrow> (error + lineEntry list) \<times> nat" where
  "attemptLoop X chunk offset 0 lastError n = (Inl lastError, n)"
| "attemptLoop X chunk offset (Suc attemptsLeft) lastError n =
     (case attemptOnce X chunk offset n of
        (Inr aligned, n') \<Rightarrow> (Inr aligned, n')
      | (Inl e, n') \<Rightarrow> attemptLoop X chunk offset attemptsLeft e n')"

definition translateChunkWithGemini :: "externals \<Rightarrow> jsv list \<Rightarrow> nat \<Rightarrow> nat \<Rightarrow> nat \<Rightarrow> (error + lineEntry list) \<times> nat" where
  "translateChunkWithGemini X chunk offset maxAttempts n =
     attemptLoop X chunk offset maxAttempts UpstreamError n"

text \<open>
  \<open>translatedTexts.forEach((item, index) => translations.push(...))\<close>, where
  \<open>segment[index]\<close> beyond the segment is \<open>undefined\<close> and reading its
  \<open>timestamp\<close> throws.
\<close>

definition pushTranslation :: "jsv list \<Rightarrow> lineEntry \<times> nat \<Rightarrow> error + jsv" where
  "pushTranslation segment p =
     (let item = fst p; index = snd p
      in if index < length segment
         then Inr (JObj [(js ''text'', JStr (normalizeWhitespace (lineText item))),
                         (js ''timestamp'', getProp (segment ! index) (js ''timestamp'')),
                         (js ''sourceText'', getProp (segment ! index) (js ''text''))])
         else Inl TypeError)"

text \<open>The loop over the batches; \<open>offset\<close> is \<open>translations.length\<close>.\<close>

fun translateSegments :: "externals \<Rightarrow> nat \<Rightarrow> jsv list list \<Rightarrow> jsv list \<Rightarrow> nat \<Rightarrow> error + jsv list" where
  "translateSegments X maxAttempts [] translations n = Inr translations"
| "translateSegments X maxAttempts (segment # rest) translations n =
     (let offset = length translations
      in case translateChunkWithGemini X segment offset maxAttempts n of
           (Inl e, n') \<Rightarrow> Inl e
         | (Inr translatedTexts, n') \<Rightarrow>
             (case mapE (pushTranslation segment)
                        (zip translatedTexts [0..<length translatedTexts]) of
                Inl e \<Rightarrow> Inl e
              | Inr pushed \<Rightarrow> translateSegments X maxAttempts rest (translations @ pushed) n'))"

text \<open>\<open>xs.join(" ")\<close>.\<close>

fun joinSpace :: "jsstring list \<Rightarrow> jsstring" where
  "joinSpace [] = []"
| "joinSpace [x] = x"
| "joinSpace (x # y # ys) = x @ [0x20] @ joinSpace (y # ys)"

text \<open>
  \<open>translateTranscription\<close>. The outer \<open>None\<close> is a run that does not return (the
  batching loop with a batch size of zero).
\<close>

definition translateTranscription :: "env \<Rightarrow> externals \<Rightarrow> jsv \<Rightarrow> (error + jsv) option" where
  "translateTranscription E X transcription =
     (case validateTranscriptionStructure transcription of
        Inl e \<Rightarrow> Some (Inl e)
      | Inr normalizedTranscription \<Rightarrow>
          (case getProp normalizedTranscription (js ''chunks'') of
             JArr chunks \<Rightarrow>
               if chunks = []
               then Some (validateTranslationStructure
                            (JObj [(js ''fullText'', JStr []), (js ''chunks'', JArr [])]))
               else if geminiApiKey E = [] then Some (Inl UpstreamError)
               else
                 (case chunkArray chunks (nat (DEFAULT_CHUNK_SIZE E)) of
                    None \<Rightarrow> None
                  | Some chunked \<Rightarrow>
                      (case translateSegments X (nat (MAX_ATTEMPTS E)) chunked [] 0 of
                         Inl e \<Rightarrow> Some (Inl e)
                       | Inr translations \<Rightarrow>
                           (let fullText = trim (collapseWhitespace
                                     (joinSpace (map textOf translations)))
                            in Some (validateTranslationStructure
                                       (JObj [(js ''fullText'', JStr fullText),
                                              (js ''chunks'', JArr translations)])))))
           | _ \<Rightarrow> Some (Inl TypeError)))"

section \<open>Transcript segmenter (transcription/whisper.js)\<close>

text \<open>
  The segmenter settings of config/config.js (\<open>transcription.phraseMinWords\<close> and
  its neighbours), as the module constants read them.
\<close>

definition PHRASE_MIN_WORDS :: real where
  "PHRASE_MIN_WORDS = max 1 5"

definition PHRASE_MAX_WORDS :: real where
  "PHRASE_MAX_WORDS = max PHRASE_MIN_WORDS 9"

definition WORD_MIN_WORDS :: real where
  "WORD_MIN_WORDS = max 1 1"

definition WORD_MAX_WORDS :: real where
  "WORD_MAX_WORDS = max WORD_MIN_WORDS 1"

definition PHRASE_MIN_DURATION :: real where
  "PHRASE_MIN_DURATION = 0.6"

definition PHRASE_MAX_DURATION :: real where
  "PHRASE_MAX_DURATION = 3.2"

definition MAX_GAP_BETWEEN_WORD_CHUNKS :: real where
  "MAX_GAP_BETWEEN_WORD_CHUNKS = 0.7"

text \<open>
  \<open>toNumber(value, null)\<close>: \<open>None\<close> is the fallback. \<open>Number.parseFloat\<close> is the
  runtime's and is a parameter.
\<close>

definition toNumber :: "(jsstring \<Rightarrow> number) \<Rightarrow> jsv \<Rightarrow> real option" where
  "toNumber parseFloat v =
     (case v of
        JNum (Finite r) \<Rightarrow> Some r
      | JStr s \<Rightarrow>
          if trim s \<noteq> []
          then (case parseFloat s of Finite r \<Rightarrow> Some r | _ \<Rightarrow> None)
          else None
      | _ \<Rightarrow> None)"

text \<open>A normalized word entry \<open>{originalText, text, start, end}\<close>; its numbers are finite.\<close>

record wordEntry =
  wordOriginalText :: jsstring
  wordText :: jsstring
  wordStart :: real
  wordEnd :: real

text \<open>
  The callback of \<open>entries.map\<close> in \<open>normalizeWordEntries\<close>; \<open>None\<close> is
  \<open>null\<close>. \<open>(rawText || '').trim()\<close> throws on a truthy value that is not a
  string.
\<close>

definition normalizeWordEntry :: "(jsstring \<Rightarrow> number) \<Rightarrow> jsv \<Rightarrow> error + wordEntry option" where
  "normalizeWordEntry parseFloat entry =
     (if \<not> truthy entry \<or> typeof entry \<noteq> ''object'' then Inr None
      else
        (let rawText = (if typeof (getProp entry (js ''originalText'')) = ''string''
                        then getProp entry (js ''originalText'')
                        else getProp entry (js ''text''))
         in case (if \<not> truthy rawText then Inr ([], [])
                  else case rawText of JStr s \<Rightarrow> Inr (s, trim s) | _ \<Rightarrow> Inl TypeError) of
              Inl e \<Rightarrow> Inl e
            | Inr (raw, text) \<Rightarrow>
                if text = [] then Inr None
                else
                  (let start = (case toNumber parseFloat (getProp entry (js ''start'')) of
                                  Some r \<Rightarrow> r
                                | None \<Rightarrow>
                                    (case toNumber parseFloat (getProp entry (js ''startTime'')) of
                                       Some r \<Rightarrow> r | None \<Rightarrow> 0));
                       end' = (case toNumber parseFloat (getProp entry (js ''end'')) of
                                 Some r \<Rightarrow> r
                               | None \<Rightarrow>
                                   (case toNumber parseFloat (getProp entry (js ''endTime'')) of
                                      Some r \<Rightarrow> r | None \<Rightarrow> start));
                       safeEnd = (if end' \<ge> start then end' else start)
                   in Inr (Some \<lparr>wordOriginalText = raw, wordText = text,
                                 wordStart = start, wordEnd = safeEnd\<rparr>))))"

text \<open>
  \<open>normalizeWordEntries\<close>: the entries that are not \<open>null\<close> and have a text, in
  ascending order of \<open>start\<close> (\<open>Array.prototype.sort\<close> is stable).
\<close>

definition normalizeWordEntries :: "(jsstring \<Rightarrow> number) \<Rightarrow> jsv \<Rightarrow> error + wordEntry list" where
  "normalizeWordEntries parseFloat entries =
     (case entries of
        JArr es \<Rightarrow>
          (case mapE (normalizeWordEntry parseFloat) es of
             Inl e \<Rightarrow> Inl e
           | Inr mapped \<Rightarrow>
               Inr (sort_key wordStart
                      (List.map_filter
                         (\<lambda>m. case m of
                                 Some w \<Rightarrow> if wordText w \<noteq> [] then Some w else None
                               | None \<Rightarrow> None)
                         mapped)))
      | _ \<Rightarrow> Inr [])"

text \<open>The character classes of \<open>composeChunkText\<close> and of \<open>endsSentence\<close>.\<close>

definition isClosingPunct :: "16 word \<Rightarrow> bool" where
  "isClosingPunct c \<longleftrightarrow> c \<in> {0x2E, 0x2C, 0x21, 0x3F, 0x3B, 0x3A, 0x29, 0x5D, 0xBB, 0x201D}"

definition isApostrophe :: "16 word \<Rightarrow> bool" where
  "isApostrophe c \<longleftrightarrow> c = 0x27 \<or> c = 0x2019"

definition isDash :: "16 word \<Rightarrow> bool" where
  "isDash c \<longleftrightarrow> c = 0x2D \<or> c = 0x2013 \<or> c = 0x2014"

definition isSentenceEnd :: "16 word \<Rightarrow> bool" where
  "isSentenceEnd c \<longleftrightarrow> c = 0x2E \<or> c = 0x21 \<or> c = 0x3F \<or> c = 0x2026"

text \<open>The callback of \<open>words.reduce\<close> in \<open>composeChunkText\<close>.\<close>

definition composeStep :: "jsstring \<Rightarrow> wordEntry \<Rightarrow> jsstring" where
  "composeStep acc word =
     (let source = (if wordOriginalText word \<noteq> [] then wordOriginalText word else wordText word);
          trimmed = trim source
      in if trimmed = [] then acc
         else if acc = [] then trimmed
         else if isClosingPunct (hd trimmed) \<or> isApostrophe (hd trimmed) then acc @ trimmed
         else if last acc = 0x28 \<or> isDash (last acc) then acc @ trimmed
         else acc @ [0x20] @ trimmed)"

text \<open>
  \<open>replace(/\s+([.,!?;:)\]\<dots>])/g, '$1')\<close>: a run of white space right before a closing
  mark is dropped. The first argument is the run read so far.
\<close>

fun closeUp :: "jsstring \<Rightarrow> jsstring \<Rightarrow> jsstring" where
  "closeUp ws [] = ws"
| "closeUp ws (c # cs) =
     (if isWhiteSpace c then closeUp (ws @ [c]) cs
      else if ws \<noteq> [] \<and> isClosingPunct c then c # closeUp [] cs
      else ws @ c # closeUp [] cs)"

text \<open>
  \<open>replace(/\(\s+/g, '(')\<close>: white space right after an opening parenthesis is
  dropped. The flag tells that the run after a parenthesis is being read.
\<close>

fun openUp :: "bool \<Rightarrow> jsstring \<Rightarrow> jsstring" where
  "openUp skip [] = []"
| "openUp skip (c # cs) =
     (if skip \<and> isWhiteSpace c then openUp True cs else c # openUp (c = 0x28) cs)"

definition composeChunkText :: "wordEntry list \<Rightarrow> jsstring" where
  "composeChunkText words = trim (openUp False (closeUp [] (foldl composeStep [] words)))"

text \<open>The \<open>overrides\<close> argument; \<open>None\<close> is a field that is missing or \<open>null\<close>.\<close>

record overrides =
  minWords :: "real option"
  maxWords :: "real option"
  maxGapSeconds :: "real option"
  minDuration :: "real option"
  maxDuration :: "real option"

text \<open>The two calls of \<open>buildTranscriptionVariants\<close>.\<close>

definition phraseOverrides :: overrides where
  "phraseOverrides = \<lparr>minWords = Some PHRASE_MIN_WORDS, maxWords = Some PHRASE_MAX_WORDS,
       maxGapSeconds = Some MAX_GAP_BETWEEN_WORD_CHUNKS,
       minDuration = Some PHRASE_MIN_DURATION, maxDuration = Some PHRASE_MAX_DURATION\<rparr>"

definition wordOverrides :: overrides where
  "wordOverrides = \<lparr>minWords = Some WORD_MIN_WORDS, maxWords = Some WORD_MAX_WORDS,
       maxGapSeconds = Some MAX_GAP_BETWEEN_WORD_CHUNKS,
       minDuration = Some 0, maxDuration = None\<rparr>"

record chunk =
  chunkText :: jsstring
  chunkTimestamp :: "real \<times> real"

text \<open>\<open>buffer.reduce((acc, item) => Math.max(acc, item.end), start)\<close>.\<close>

definition bufferEnd :: "wordEntry list \<Rightarrow> real" where
  "bufferEnd buffer = foldl (\<lambda>acc item. max acc (wordEnd item)) (wordStart (hd buffer)) buffer"

text \<open>\<open>flush\<close>: the groups after the call (the buffer is emptied by the caller).\<close>

definition flush :: "wordEntry list \<Rightarrow> chunk list \<Rightarrow> chunk list" where
  "flush buffer groups =
     (if buffer = [] then groups
      else if composeChunkText buffer \<noteq> []
      then groups @ [\<lparr>chunkText = composeChunkText buffer,
                       chunkTimestamp = (wordStart (hd buffer), bufferEnd buffer)\<rparr>]
      else groups)"

text \<open>
  Whether the body of \<open>normalized.forEach\<close> flushes after pushing \<open>entry\<close>;
  \<open>buffer\<close> already holds the entry and \<open>rest\<close> are the entries after it.
\<close>

definition flushesAfter :: "overrides \<Rightarrow> wordEntry list \<Rightarrow> wordEntry \<Rightarrow> wordEntry list \<Rightarrow> bool" where
  "flushesAfter ov buffer entry rest =
     (let minWords' = max 1 (case minWords ov of None \<Rightarrow> PHRASE_MIN_WORDS | Some v \<Rightarrow> v);
          maxWords' = max minWords' (case maxWords ov of None \<Rightarrow> PHRASE_MAX_WORDS | Some v \<Rightarrow> v);
          maxGapSeconds' = (case maxGapSeconds ov of None \<Rightarrow> MAX_GAP_BETWEEN_WORD_CHUNKS | Some v \<Rightarrow> v);
          minDuration' = (case minDuration ov of None \<Rightarrow> PHRASE_MIN_DURATION | Some v \<Rightarrow> v);
          maxDuration' = (case maxDuration ov of None \<Rightarrow> PHRASE_MAX_DURATION | Some v \<Rightarrow> v);
          bufferStart = wordStart (hd buffer);
          bufferEnd' = bufferEnd buffer;
          duration = max 0 (bufferEnd' - bufferStart);
          reachedMaxWords = (real (length buffer) \<ge> maxWords');
          endsSentence = (wordText entry \<noteq> [] \<and> isSentenceEnd (last (wordText entry)));
          enoughWords = (real (length buffer) \<ge> minWords');
          reachedMinDuration = (minDuration' = 0 \<or> duration \<ge> minDuration');
          reachedMaxDuration = (maxDuration' \<noteq> 0 \<and> duration \<ge> maxDuration');
          nextWouldExceedDuration =
            (case rest of
               [] \<Rightarrow> False
             | next # later \<Rightarrow>
                 maxDuration' \<noteq> 0 \<and> max bufferEnd' (wordEnd next) - bufferStart > maxDuration');
          breakOnGap =
            (case rest of
               [] \<Rightarrow> False
             | next # later \<Rightarrow> max 0 (wordStart next - bufferEnd') > maxGapSeconds');
          isLast = (rest = [])
      in breakOnGap \<or> reachedMaxWords \<or> reachedMaxDuration
         \<or> (nextWouldExceedDuration \<and> reachedMinDuration)
         \<or> (reachedMinDuration \<and> enoughWords \<and> endsSentence)
         \<or> isLast)"

text \<open>
  \<open>normalized.forEach\<close>: the entries still to visit, the buffer and the groups so
  far; the result is the groups and the buffer after the last entry.
\<close>

fun groupLoop :: "overrides \<Rightarrow> wordEntry list \<Rightarrow> wordEntry list \<Rightarrow> chunk list \<Rightarrow> chunk list \<times> wordEntry list" where
  "groupLoop ov [] buffer groups = (groups, buffer)"
| "groupLoop ov (entry # rest) buffer groups =
     (if flushesAfter ov (buffer @ [entry]) entry rest
      then groupLoop ov rest [] (flush (buffer @ [entry]) groups)
      else groupLoop ov rest (buffer @ [entry]) groups)"

definition groupWordEntries :: "(jsstring \<Rightarrow> number) \<Rightarrow> jsv \<Rightarrow> overrides \<Rightarrow> error + chunk list" where
  "groupWordEntries parseFloat entries ov =
     (case normalizeWordEntries parseFloat entries of
        Inl e \<Rightarrow> Inl e
      | Inr normalized \<Rightarrow>
          if normalized = [] then Inr []
          else
            (let looped = groupLoop ov normalized [] [];
                 groups = flush (snd looped) (fst looped)
             in if groups = []
                then Inr (map (\<lambda>entry. \<lparr>chunkText = wordText entry,
                                         chunkTimestamp = (wordStart entry, wordEnd entry)\<rparr>)
                              normalized)
                else Inr groups))"

text \<open>
  The same loop, keeping for every group that \<open>flush\<close> pushes the words of the buffer
  it was made from. It serves to say which words a chunk contains.
\<close>

definition flushWords :: "wordEntry list \<Rightarrow> wordEntry list list \<Rightarrow> wordEntry list list" where
  "flushWords buffer buffers =
     (if buffer = [] then buffers
      else if composeChunkText buffer \<noteq> [] then buffers @ [buffer]
      else buffers)"

fun bufferLoop :: "overrides \<Rightarrow> wordEntry list \<Rightarrow> wordEntry list \<Rightarrow> wordEntry list list \<Rightarrow> wordEntry list list \<times> wordEntry list" where
  "bufferLoop ov [] buffer buffers = (buffers, buffer)"
| "bufferLoop ov (entry # rest) buffer buffers =
     (if flushesAfter ov (buffer @ [entry]) entry rest
      then bufferLoop ov rest [] (flushWords (buffer @ [entry]) buffers)
      else bufferLoop ov rest (buffer @ [entry]) buffers)"

definition chunkOf :: "wordEntry list \<Rightarrow> chunk" where
  "chunkOf buffer = \<lparr>chunkText = composeChunkText buffer,
                     chunkTimestamp = (wordStart (hd buffer), bufferEnd buffer)\<rparr>"

definition chunkWords :: "overrides \<Rightarrow> wordEntry list \<Rightarrow> wordEntry list list" where
  "chunkWords ov normalized =
     (let looped = bufferLoop ov normalized [] []
      in flushWords (snd looped) (fst looped))"

section \<open>Per-video orchestrator (src/index.js, audio/normalizer.js, audio/extractor.js)\<close>

text \<open>
  A path is kept as \<open>path.parse\<close> splits it: directory, base name without extension,
  extension. The file system is the set of paths that exist. The calls to other modules
  and to the outside are not computed: an \<open>outcomes\<close> record says, for one run, which
  of them succeed.
\<close>

record path =
  dir :: jsstring
  stem :: jsstring
  ext :: jsstring

definition basename :: "path \<Rightarrow> jsstring" where
  "basename p = stem p @ ext p"

datatype renameOutcome = Renamed | CrossDeviceCopied | CrossDeviceCopyFails | RenameFails

record outcomes =
  extractAudioOk :: bool
  transcribeOk :: bool
  translateOk :: bool
  analyzeOk :: bool
  exercisesOk :: bool
  ffmpegOk :: bool
  renameResult :: renameOutcome
  outputsOk :: bool
  validateOk :: bool
  saveOk :: bool
  writeOk :: bool

record settings =
  audioNormalizationApply :: bool
  videoCompressionApply :: bool
  tempDir :: jsstring
  outputDir :: jsstring

text \<open>\<open>extractAudio\<close>: the WAV is \<open><tempDir>/<name>.wav\<close>.\<close>

definition extractAudio :: "outcomes \<Rightarrow> path \<Rightarrow> jsstring \<Rightarrow> path set \<Rightarrow> (error + path) \<times> path set" where
  "extractAudio run videoPath outDir files =
     (let audioPath = \<lparr>dir = outDir, stem = stem videoPath, ext = js ''.wav''\<rparr>
      in if extractAudioOk run then (Inr audioPath, insert audioPath files)
         else (Inl UpstreamError, files))"

text \<open>
  \<open>normalizeVideoAudio\<close>: with both audio normalization and video compression
  switched off the input path itself is returned; otherwise the output is
  \<open><outputDir>/<name>-normalized<ext>\<close>.
\<close>

definition normalizeVideoAudio :: "settings \<Rightarrow> outcomes \<Rightarrow> path \<Rightarrow> jsstring \<Rightarrow> path set \<Rightarrow> (error + path) \<times> path set" where
  "normalizeVideoAudio S run inputVideoPath outDir files =
     (let normalizeAudio = audioNormalizationApply S;
          compressVideo = videoCompressionApply S
      in if \<not> normalizeAudio \<and> \<not> compressVideo then (Inr inputVideoPath, files)
         else
           (let outputPath = \<lparr>dir = outDir, stem = stem inputVideoPath @ js ''-normalized'',
                               ext = ext inputVideoPath\<rparr>
            in if outputPath = inputVideoPath then (Inl UpstreamError, files)
               else if ffmpegOk run then (Inr outputPath, insert outputPath files)
               else (Inl UpstreamError, files)))"

text \<open>The variables that the \<open>finally\<close> block of \<open>processVideo\<close> reads, and the disk.\<close>

record locals =
  audioPath :: "path option"
  normalizedVideoPath :: "path option"
  success :: bool
  files :: "path set"

text \<open>
  The \<open>try\<close> block of \<open>processVideo\<close>, up to its \<open>return\<close> (\<open>success\<close> is true)
  or to the first exception. \<open>safeBaseName\<close> is the random identifier of
  \<open>generateSafeId\<close>.
\<close>

definition processVideoTry :: "casing \<Rightarrow> settings \<Rightarrow> outcomes \<Rightarrow> jsstring \<Rightarrow> path \<Rightarrow> path set \<Rightarrow> locals" where
  "processVideoTry U S run safeBaseName videoPath disk =
     (let extension = (if ext videoPath \<noteq> [] then toLowerCase U (ext videoPath) else js ''.mp4'');
          safeVideoFileName = safeBaseName @ extension;
          L0 = \<lparr>audioPath = None, normalizedVideoPath = None, success = False, files = disk\<rparr>
      in case extractAudio run videoPath (tempDir S) disk of
           (Inl e, disk1) \<Rightarrow> L0\<lparr>files := disk1\<rparr>
         | (Inr extracted, disk1) \<Rightarrow>
        (let L1 = L0\<lparr>audioPath := Some extracted, files := disk1\<rparr>
         in if \<not> transcribeOk run then L1
            else if \<not> translateOk run then L1
            else if \<not> analyzeOk run then L1
            else if \<not> exercisesOk run then L1
            else case normalizeVideoAudio S run videoPath (tempDir S) disk1 of
                   (Inl e, disk2) \<Rightarrow> L1\<lparr>files := disk2\<rparr>
                 | (Inr normalized, disk2) \<Rightarrow>
        (let L2 = L1\<lparr>normalizedVideoPath := Some normalized, files := disk2\<rparr>;
             sanitizedNormalizedPath = \<lparr>dir = dir normalized, stem = safeBaseName, ext = extension\<rparr>;
             renamed =
               (if basename normalized \<noteq> safeVideoFileName
                then (case renameResult run of
                        Renamed \<Rightarrow>
                          Inr (L2\<lparr>normalizedVideoPath := Some sanitizedNormalizedPath,
                                  files := insert sanitizedNormalizedPath (disk2 - {normalized})\<rparr>)
                      | CrossDeviceCopied \<Rightarrow>
                          Inr (L2\<lparr>normalizedVideoPath := Some sanitizedNormalizedPath,
                                  files := insert sanitizedNormalizedPath disk2 - {normalized}\<rparr>)
                      | CrossDeviceCopyFails \<Rightarrow> Inl L2
                      | RenameFails \<Rightarrow> Inl L2)
                else Inr L2)
         in case renamed of
              Inl thrown \<Rightarrow> thrown
            | Inr L3 \<Rightarrow>
                if \<not> outputsOk run then L3
                else if \<not> validateOk run then L3
                else if \<not> saveOk run then L3
                else if \<not> writeOk run then L3
                else L3\<lparr>success := True,
                        files := insert \<lparr>dir = outputDir S, stem = safeBaseName, ext = js ''.json''\<rparr>
                                   (files L3)\<rparr>)))"

text \<open>
  The \<open>finally\<close> block: \<open>fs.unlink(p).catch(() => {})\<close> removes \<open>p\<close> if it is
  there.
\<close>

definition processVideoFinally :: "path \<Rightarrow> locals \<Rightarrow> path set" where
  "processVideoFinally videoPath L =
     (let disk1 = (case audioPath L of Some a \<Rightarrow> files L - {a} | None \<Rightarrow> files L);
          disk2 = (case normalizedVideoPath L of
                     Some n \<Rightarrow> if n \<noteq> videoPath then disk1 - {n} else disk1
                   | None \<Rightarrow> disk1)
      in if success L then disk2 - {videoPath} else disk2)"

text \<open>\<open>processVideo\<close>: whether it returned (rather than threw), and the disk afterwards.\<close>

definition processVideo :: "casing \<Rightarrow> settings \<Rightarrow> outcomes \<Rightarrow> jsstring \<Rightarrow> path \<Rightarrow> path set \<Rightarrow> bool \<times> path set" where
  "processVideo U S run safeBaseName videoPath disk =
     (let L = processVideoTry U S run safeBaseName videoPath disk
      in (success L, processVideoFinally videoPath L))"

section \<open>Sample inputs\<close>

text \<open>A transcription view with no chunks, and three views put together.\<close>

definition viewOf :: "string \<Rightarrow> jsv" where
  "viewOf s = JObj [(js ''fullText'', JStr (js s)), (js ''chunks'', JArr [])]"

definition validatedViewOf :: "string \<Rightarrow> jsv" where
  "validatedViewOf s =
     JObj [(js ''fullText'', JStr (js s)), (js ''text'', JStr (js s)), (js ''chunks'', JArr [])]"

definition variantsOf :: "string \<Rightarrow> string \<Rightarrow> string \<Rightarrow> jsv" where
  "variantsOf a b c =
     JObj [(js ''plain'', viewOf a), (js ''phrases'', viewOf b), (js ''words'', viewOf c)]"

text \<open>An analysis as the language model may answer it, with the given topics.\<close>

definition analysisWith :: "jsv list \<Rightarrow> jsv" where
  "analysisWith topics =
     JObj [(js ''cefrLevel'', JStr (js ''b1'')),
           (js ''speechSpeed'', JStr (js ''Normal'')),
           (js ''grammarComplexity'', JStr (js ''simple'')),
           (js ''vocabularyComplexity'', JStr (js ''basic'')),
           (js ''topics'', JArr topics)]"

definition validatedAnalysisWith :: "jsv list \<Rightarrow> jsv" where
  "validatedAnalysisWith topics =
     JObj [(js ''cefrLevel'', JStr (js ''B1'')),
           (js ''speechSpeed'', JStr (js ''normal'')),
           (js ''grammarComplexity'', JStr (js ''simple'')),
           (js ''vocabularyComplexity'', JStr (js ''basic'')),
           (js ''topics'', JArr topics),
           (js ''isAdultContent'', JBool False)]"

text \<open>
  Exercises that are already normalized: the question is Russian, the three options of
  \<open>russianOptions\<close> are Russian words, the first option of \<open>mixedOptions\<close> holds
  Cyrillic and Latin letters.
\<close>

definition russianQuestion :: jsstring where
  "russianQuestion = [0x427, 0x442, 0x43E, 0x3F]"

definition russianOptions :: "jsstring list" where
  "russianOptions = [[0x43A, 0x43E, 0x442], [0x43F, 0x451, 0x441], [0x434, 0x43E, 0x43C]]"

definition mixedOptions :: "jsstring list" where
  "mixedOptions = [[0x43A, 0x43E, 0x442, 0x20, 0x63, 0x61, 0x74], [0x43F, 0x451, 0x441], [0x434, 0x43E, 0x43C]]"

definition exerciseOf :: "string \<Rightarrow> jsstring list \<Rightarrow> (jsstring \<times> jsv) list \<Rightarrow> jsv" where
  "exerciseOf t opts extra =
     JObj ([(js ''type'', JStr (js t)), (js ''question'', JStr russianQuestion),
            (js ''options'', JArr (map JStr opts)), (js ''correctAnswer'', JNum (Finite 0))] @ extra)"

definition vocabularyExercise :: "jsstring list \<Rightarrow> jsv" where
  "vocabularyExercise opts = exerciseOf ''vocabulary'' opts [(js ''word'', JStr (js ''cat''))]"

definition sevenExercises :: "jsv list" where
  "sevenExercises =
     [vocabularyExercise russianOptions, vocabularyExercise russianOptions,
      vocabularyExercise russianOptions, exerciseOf ''topic'' russianOptions [],
      exerciseOf ''statementCheck'' russianOptions [],
      exerciseOf ''statementCheck'' russianOptions [],
      exerciseOf ''statementCheck'' russianOptions []]"

definition mixedScriptExercises :: "jsv list" where
  "mixedScriptExercises =
     [vocabularyExercise mixedOptions, vocabularyExercise russianOptions,
      vocabularyExercise russianOptions, exerciseOf ''topic'' russianOptions [],
      exerciseOf ''statementCheck'' russianOptions []]"

text \<open>
  A run of the orchestrator on \<open>/tmp/lesson.MP4\<close> in which every step succeeds but
  the upload; with \<open>passthroughSettings\<close> both audio normalization and video
  compression are switched off.
\<close>

definition passthroughSettings :: settings where
  "passthroughSettings = \<lparr>audioNormalizationApply = False, videoCompressionApply = False,
                           tempDir = js ''/tmp'', outputDir = js ''/out''\<rparr>"

definition defaultSettings :: settings where
  "defaultSettings = \<lparr>audioNormalizationApply = True, videoCompressionApply = False,
                       tempDir = js ''/tmp'', outputDir = js ''/out''\<rparr>"

definition uploadFails :: outcomes where
  "uploadFails = \<lparr>extractAudioOk = True, transcribeOk = True, translateOk = True,
                   analyzeOk = True, exercisesOk = True, ffmpegOk = True,
                   renameResult = Renamed, outputsOk = False, validateOk = True,
                   saveOk = True, writeOk = True\<rparr>"

definition lessonVideo :: path where
  "lessonVideo = \<lparr>dir = js ''/tmp'', stem = js ''lesson'', ext = js ''.MP4''\<rparr>"

text \<open>Three words out of order, and a transcription of two phrases.\<close>

definition wordObject :: "string \<Rightarrow> real \<Rightarrow> real \<Rightarrow> jsv" where
  "wordObject t s e =
     JObj [(js ''text'', JStr (js t)), (js ''start'', JNum (Finite s)), (js ''end'', JNum (Finite e))]"

definition normalizedWord :: "string \<Rightarrow> string \<Rightarrow> real \<Rightarrow> real \<Rightarrow> wordEntry" where
  "normalizedWord raw t s e =
     \<lparr>wordOriginalText = js raw, wordText = js t, wordStart = s, wordEnd = e\<rparr>"

definition sampleWords :: jsv where
  "sampleWords = JArr [wordObject ''Bye'' 5 6, wordObject ''Hello'' 0 1,
                       wordObject '' world.'' 1 2]"

definition sampleNormalized :: "wordEntry list" where
  "sampleNormalized = [normalizedWord ''Hello'' ''Hello'' 0 1,
                       normalizedWord '' world.'' ''world.'' 1 2,
                       normalizedWord ''Bye'' ''Bye'' 5 6]"

definition phraseChunk :: "string \<Rightarrow> real \<Rightarrow> real \<Rightarrow> jsv" where
  "phraseChunk t s e =
     JObj [(js ''text'', JStr (js t)), (js ''timestamp'', JArr [JNum (Finite s), JNum (Finite e)])]"

definition sampleView :: jsv where
  "sampleView = JObj [(js ''fullText'', JStr (js ''Hi Bye'')),
                      (js ''text'', JStr (js ''Hi Bye'')),
                      (js ''chunks'', JArr [phraseChunk ''Hi'' 0 1, phraseChunk ''Bye'' 1 2])]"

text \<open>
  A model whose calls reject, answer with one item that has a text and no index, and
  answer with a plain line, in turn; and one that rejects every call.
\<close>

definition privet :: jsstring where
  "privet = [0x41F, 0x440, 0x438, 0x432, 0x435, 0x442]"

definition poka :: jsstring where
  "poka = [0x41F, 0x43E, 0x43A, 0x430]"

definition recoveringModel :: externals where
  "recoveringModel =
     \<lparr>generateContent = (\<lambda>n. if n mod 3 = 0 then Rejects
                             else if n mod 3 = 1 then Responds (js ''[{text: '' @ privet @ js ''}]'')
                             else Responds poka),
      extractJson = (\<lambda>t. if t = js ''[{text: '' @ privet @ js ''}]''
                          then Inr (JArr [JObj [(js ''text'', JStr privet)]])
                          else Inl ValidationError)\<rparr>"


section \<open>Auxiliary facts\<close>

lemma of_char_word_inj: "(of_char a :: 16 word) = of_char b \<longleftrightarrow> a = b"
proof
  assume h: "(of_char a :: 16 word) = of_char b"
  have small: "unat (of_nat (of_char c) :: 16 word) = of_char c" for c
  proof -
    have "(of_char c :: nat) < 256"
      by (metis of_char_mod_256 mod_less_divisor zero_less_numeral)
    then have "(of_char c :: nat) < 65536" by linarith
    then show ?thesis by (simp add: unat_of_nat)
  qed
  have "(of_nat (of_char a) :: 16 word) = of_nat (of_char b)"
    using h by (simp only: of_nat_of_char)
  then have "unat (of_nat (of_char a) :: 16 word) = unat (of_nat (of_char b) :: 16 word)"
    by simp
  then have "(of_char a :: nat) = of_char b"
    by (simp only: small)
  then show "a = b" by simp
qed simp

lemma js_eq_iff: "js a = js b \<longleftrightarrow> a = b"
proof -
  have "inj (of_char :: char \<Rightarrow> 16 word)"
    by (rule injI) (simp add: of_char_word_inj)
  then show ?thesis
    unfolding js_def by (rule inj_map_eq_map)
qed

lemma distinct_fold_fresh:
  "distinct acc \<Longrightarrow> distinct (fold (\<lambda>x acc. if x \<in> set acc then acc else acc @ [x]) xs acc)"
  by (induction xs arbitrary: acc) auto

lemma distinct_arrayFromSet: "distinct (arrayFromSet xs)"
  unfolding arrayFromSet_def by (rule distinct_fold_fresh) simp

lemma set_fold_fresh:
  "set (fold (\<lambda>x acc. if x \<in> set acc then acc else acc @ [x]) xs acc) = set xs \<union> set acc"
  by (induction xs arbitrary: acc) auto

lemma set_arrayFromSet: "set (arrayFromSet xs) = set xs"
  unfolding arrayFromSet_def by (simp add: set_fold_fresh)

lemma take3_videoTopics: "take 3 videoTopics = [js ''Business'', js ''Technology'', js ''Science'']"
  by (simp add: videoTopics_def)

subsection \<open>The topic table\<close>

lemma map_of_assignString:
  "map_of (assignString acc k' v) k =
     (if k' = js ''__proto__'' then map_of acc k
      else if k = k' then Some (JStr v) else map_of acc k)"
  by (simp add: assignString_def update_conv')

lemma map_of_assign_fold:
  "map_of (foldl (\<lambda>acc t. assignString acc (f t) t) acc0 ts) k =
     (if k = js ''__proto__'' then map_of acc0 k
      else case map_of (rev (map (\<lambda>t. (f t, JStr t)) ts)) k of
             Some v \<Rightarrow> Some v
           | None \<Rightarrow> map_of acc0 k)"
proof (induction ts arbitrary: acc0)
  case Nil
  then show ?case by simp
next
  case (Cons t ts)
  have "map_of (foldl (\<lambda>acc t. assignString acc (f t) t) acc0 (t # ts)) k =
        map_of (foldl (\<lambda>acc t. assignString acc (f t) t) (assignString acc0 (f t) t) ts) k"
    by simp
  also have "\<dots> = (if k = js ''__proto__'' then map_of (assignString acc0 (f t) t) k
      else case map_of (rev (map (\<lambda>t. (f t, JStr t)) ts)) k of
             Some v \<Rightarrow> Some v
           | None \<Rightarrow> map_of (assignString acc0 (f t) t) k)"
    by (rule Cons.IH)
  also have "\<dots> = (if k = js ''__proto__'' then map_of acc0 k
      else case map_of (rev (map (\<lambda>t. (f t, JStr t)) (t # ts))) k of
             Some v \<Rightarrow> Some v
           | None \<Rightarrow> map_of acc0 k)"
    by (auto simp: map_of_assignString map_add_def split: option.splits)
  finally show ?case .
qed

lemma map_of_TOPIC_LOOKUP:
  "map_of (TOPIC_LOOKUP U) k =
     (if k = js ''__proto__'' then None
      else map_of (rev (map (\<lambda>t. (toLowerCase U t, JStr t)) videoTopics)) k)"
  unfolding TOPIC_LOOKUP_def map_of_assign_fold
  by (simp split: option.splits)

lemma map_pair_zip: "map (\<lambda>t. (f t, g t)) xs = zip (map f xs) (map g xs)"
  by (induction xs) simp_all

lemma lowered_topics:
  "map asciiLower videoTopics = map js
     [''business'', ''technology'', ''science'', ''health'', ''education'',
      ''entertainment'', ''sports'', ''travel'', ''food'', ''fashion'', ''art'', ''music'',
      ''movies'', ''gaming'', ''news'', ''politics'', ''history'', ''nature'', ''animals'',
      ''space'', ''environment'', ''social issues'', ''psychology'', ''philosophy'',
      ''lifestyle'', ''relationships'', ''career'', ''finance'', ''motivation'', ''comedy'',
      ''drama'', ''documentary'', ''tutorial'', ''review'', ''interview'', ''vlog'',
      ''challenge'', ''story'', ''daily life'', ''cooking'', ''diy'', ''beauty'', ''fitness'',
      ''product'', ''unboxing'', ''comparison'', ''culture'', ''language'', ''how-to'',
      ''tips'', ''reaction'', ''prank'', ''experiment'', ''behind the scenes'']"
  by (simp add: videoTopics_def asciiLower_def js_def)

lemma ascii_lookup_table:
  "map_of (TOPIC_LOOKUP asciiCasing) k =
     (if k = js ''__proto__'' then None
      else map_of (rev (zip (map asciiLower videoTopics) (map JStr videoTopics))) k)"
  by (simp add: map_of_TOPIC_LOOKUP asciiCasing_def map_pair_zip)

lemma lookup_constructor:
  "getComputed (TOPIC_LOOKUP asciiCasing) (js ''constructor'') = JBuiltin (js ''constructor'')"
  unfolding getComputed_def ascii_lookup_table lowered_topics
  by (simp add: js_eq_iff objectPrototypeNames_def videoTopics_def)

lemma lookup_technology:
  "getComputed (TOPIC_LOOKUP asciiCasing) (js ''technology'') = JStr (js ''Technology'')"
  unfolding getComputed_def ascii_lookup_table lowered_topics
  by (simp add: js_eq_iff objectPrototypeNames_def videoTopics_def)

lemma lookup_science:
  "getComputed (TOPIC_LOOKUP asciiCasing) (js ''science'') = JStr (js ''Science'')"
  unfolding getComputed_def ascii_lookup_table lowered_topics
  by (simp add: js_eq_iff objectPrototypeNames_def videoTopics_def)

lemma js_Nil_iff: "js s = [] \<longleftrightarrow> s = []"
  by (simp add: js_def)

subsection \<open>Evaluating the analysis validator on literals\<close>

lemma assertString_literals:
  "assertString (JStr (js ''b1'')) = Inr (js ''b1'')"
  "assertString (JStr (js ''Normal'')) = Inr (js ''Normal'')"
  "assertString (JStr (js ''simple'')) = Inr (js ''simple'')"
  "assertString (JStr (js ''basic'')) = Inr (js ''basic'')"
  "assertString (JStr (js ''constructor'')) = Inr (js ''constructor'')"
  "assertString (JStr (js '' Technology'')) = Inr (js ''Technology'')"
  "assertString (JStr (js ''TECHNOLOGY'')) = Inr (js ''TECHNOLOGY'')"
  "assertString (JStr (js ''technology'')) = Inr (js ''technology'')"
  "assertString (JStr (js ''science'')) = Inr (js ''science'')"
  by (simp_all add: assertString_def trim_def js_def isWhiteSpace_def)

lemma ascii_case_literals:
  "asciiUpper (js ''b1'') = js ''B1''"
  "asciiLower (js ''Normal'') = js ''normal''"
  "asciiLower (js ''simple'') = js ''simple''"
  "asciiLower (js ''basic'') = js ''basic''"
  "asciiLower (js ''constructor'') = js ''constructor''"
  "asciiLower (js ''Technology'') = js ''technology''"
  "asciiLower (js ''TECHNOLOGY'') = js ''technology''"
  "asciiLower (js ''technology'') = js ''technology''"
  "asciiLower (js ''science'') = js ''science''"
  by (simp_all add: asciiLower_def asciiUpper_def js_def)

lemma asciiCasing_sel:
  "toLowerCase asciiCasing = asciiLower" "toUpperCase asciiCasing = asciiUpper"
  by (simp_all add: asciiCasing_def)

lemmas analysis_eval =
  validateAnalysisStructure_def analysisWith_def validatedAnalysisWith_def
  js_eq_iff assertString_literals asciiCasing_sel ascii_case_literals
  CEFR_LEVELS_def cefrLevels_def SPEECH_SPEEDS_def GRAMMAR_COMPLEXITIES_def
  VOCABULARY_COMPLEXITIES_def assertArray_def Let_def logicalOr_def arrayFromSet_def
  js_Nil_iff
  lookup_constructor lookup_technology lookup_science


subsection \<open>Trimming and lists of strings\<close>

lemma last_dropWhile: "dropWhile P xs \<noteq> [] \<Longrightarrow> last (dropWhile P xs) = last xs"
  by (metis last_appendR takeWhile_dropWhile_id)

lemma hd_rev_dropWhile_rev:
  assumes "a \<noteq> []" "\<not> P (hd a)"
  shows "dropWhile P (rev (dropWhile P (rev a))) = rev (dropWhile P (rev a))"
proof -
  let ?b = "dropWhile P (rev a)"
  have "last (rev a) = hd a" using assms(1) by (simp add: last_rev)
  with assms have "\<not> P (last (rev a))" by simp
  then have nonempty: "?b \<noteq> []"
    by (metis assms(1) dropWhile_eq_Nil_conv last_in_set rev_is_Nil_conv)
  then have "last ?b = hd a"
    using last_dropWhile[OF nonempty] \<open>last (rev a) = hd a\<close> by simp
  then have "hd (rev ?b) = hd a" using nonempty by (simp add: hd_rev)
  with assms(2) have "\<not> P (hd (rev ?b))" by simp
  then show ?thesis using nonempty
    by (metis dropWhile.simps(2) list.collapse rev_is_Nil_conv)
qed

lemma trim_idem: "trim (trim s) = trim s"
proof (cases "dropWhile isWhiteSpace s = []")
  case True
  have t: "trim s = []" unfolding trim_def True by simp
  show ?thesis unfolding t by (simp add: trim_def)
next
  case False
  then have "\<not> isWhiteSpace (hd (dropWhile isWhiteSpace s))"
    by (simp add: hd_dropWhile)
  with False have "dropWhile isWhiteSpace (rev (dropWhile isWhiteSpace (rev (dropWhile isWhiteSpace s))))
      = rev (dropWhile isWhiteSpace (rev (dropWhile isWhiteSpace s)))"
    by (rule hd_rev_dropWhile_rev[where P = isWhiteSpace and a = "dropWhile isWhiteSpace s"])
  then show ?thesis by (simp add: trim_def)
qed

lemma trim_Nil_iff: "trim s = [] \<longleftrightarrow> (\<forall>c\<in>set s. isWhiteSpace c)"
proof -
  have "trim s = [] \<longleftrightarrow> (\<forall>c\<in>set (dropWhile isWhiteSpace s). isWhiteSpace c)"
    by (simp add: trim_def dropWhile_eq_Nil_conv)
  also have "\<dots> \<longleftrightarrow> dropWhile isWhiteSpace s = []"
    by (metis hd_dropWhile list.set_sel(1) empty_iff list.set(1))
  also have "\<dots> \<longleftrightarrow> (\<forall>c\<in>set s. isWhiteSpace c)"
    by (simp add: dropWhile_eq_Nil_conv)
  finally show ?thesis .
qed

lemma set_trim_subset: "set (trim s) \<subseteq> set s"
proof
  fix c assume "c \<in> set (trim s)"
  then have "c \<in> set (dropWhile isWhiteSpace (rev (dropWhile isWhiteSpace s)))"
    by (simp add: trim_def)
  then have "c \<in> set (rev (dropWhile isWhiteSpace s))" by (rule set_dropWhileD)
  then have "c \<in> set (dropWhile isWhiteSpace s)" by simp
  then show "c \<in> set s" by (rule set_dropWhileD)
qed

lemma getProp_update:
  "getProp (JObj (AList.update k v kvs)) k' = (if k' = k then v else getProp (JObj kvs) k')"
  by (simp add: update_conv')

lemma mapE_assertString_Inr:
  "mapE assertString xs = Inr ss \<Longrightarrow> \<exists>raw. xs = map JStr raw \<and> ss = map trim raw"
proof (induction xs arbitrary: ss)
  case Nil
  then show ?case by simp
next
  case (Cons x xs)
  then show ?case
    by (auto simp: assertString_def split: sum.splits jsv.splits) (metis list.simps(9))
qed

lemma mapE_assertString_trimmed:
  "mapE assertString (map JStr (map trim raw)) = Inr (map trim raw)"
  by (induction raw) (simp_all add: assertString_def trim_idem)

lemma every_assertString:
  "every (\<lambda>option. case assertString option of Inl e \<Rightarrow> Inl e | Inr v \<Rightarrow> Inr (P v)) (map JStr opts)
     = Inr (list_all (\<lambda>opt. P (trim opt)) opts)"
  by (induction opts) (simp_all add: assertString_def)

lemma mapE_set:
  "mapE f xs = Inr ys \<Longrightarrow> y \<in> set ys \<Longrightarrow> \<exists>x\<in>set xs. f x = Inr y"
  by (induction xs arbitrary: ys) (auto split: sum.splits)

lemma mapE_length: "mapE f xs = Inr ys \<Longrightarrow> length ys = length xs"
  by (induction xs arbitrary: ys) (auto split: sum.splits)

subsection \<open>What an accepted exercise looks like\<close>

lemma integer_index:
  assumes "of_int \<lfloor>r\<rfloor> = (r::real)" "\<not> r < 0"
  shows "r = real (nat \<lfloor>r\<rfloor>)"
proof -
  from assms(2) have "0 \<le> \<lfloor>r\<rfloor>" by simp
  then have "real (nat \<lfloor>r\<rfloor>) = of_int \<lfloor>r\<rfloor>" by simp
  also have "\<dots> = r" by (rule assms(1))
  finally show ?thesis by (rule sym)
qed

lemma assertString_Inr: "assertString x = Inr t \<Longrightarrow> \<exists>w. x = JStr w \<and> t = trim w"
  by (auto simp: assertString_def split: jsv.splits)

lemma validateExercise_Inr:
  assumes "validateExercise e = Inr ex"
  shows "\<exists>etype question opts n.
           etype \<in> set EXERCISE_TYPES
         \<and> ex = JObj (AList.update (js ''type'') (JStr etype)
                 (AList.update (js ''correctAnswer'') (JNum (Finite (real n)))
                 (AList.update (js ''options'') (JArr (map JStr opts))
                 (AList.update (js ''question'') (JStr question) (ownProps e)))))
         \<and> n < length opts
         \<and> (\<forall>opt\<in>set opts. trim opt = opt)
         \<and> trim question = question \<and> CYRILLIC_REGEX_test question
         \<and> (etype = js ''vocabulary'' \<longrightarrow>
              validateVocabularyExercise
                (JObj (AList.update (js ''options'') (JArr (map JStr opts)) (ownProps e))) = Inr ())"
proof -
  from assms obtain ty where ty: "assertString (getProp e (js ''type'')) = Inr ty"
      and tyin: "ty \<in> set EXERCISE_TYPES"
    by (auto simp: validateExercise_def split: if_splits sum.splits)
  from assms ty tyin obtain q where q: "assertString (getProp e (js ''question'')) = Inr q"
      and qc: "CYRILLIC_REGEX_test q"
    by (auto simp: validateExercise_def split: if_splits sum.splits)
  from assms ty tyin q qc obtain raw opts where
      raw: "assertArray (getProp e (js ''options'')) = Inr raw"
      and opts: "mapE assertString raw = Inr opts"
    by (auto simp: validateExercise_def split: if_splits sum.splits)
  from assms ty tyin q qc raw opts obtain r where
      r: "getProp e (js ''correctAnswer'') = JNum (Finite r)"
      and rint: "of_int \<lfloor>r\<rfloor> = r" and r0: "\<not> r < 0" and rlt: "r < real (length opts)"
      and chk: "(if ty = js ''vocabulary''
                 then validateVocabularyExercise
                        (JObj (AList.update (js ''options'') (JArr (map JStr opts)) (ownProps e)))
                 else validateNonVocabularyOptions
                        (JObj (AList.update (js ''options'') (JArr (map JStr opts)) (ownProps e)))) = Inr ()"
      and ex: "ex = JObj (AList.update (js ''type'') (JStr ty)
                 (AList.update (js ''correctAnswer'') (JNum (Finite r))
                 (AList.update (js ''options'') (JArr (map JStr opts))
                 (AList.update (js ''question'') (JStr q) (ownProps e)))))"
    by (auto simp: validateExercise_def Let_def split: if_splits sum.splits jsv.splits number.splits)
  from integer_index[OF rint r0] have rn: "r = real (nat \<lfloor>r\<rfloor>)" .
  with rlt have nlt: "nat \<lfloor>r\<rfloor> < length opts" by linarith
  from mapE_assertString_Inr[OF opts] obtain rawstrs where "opts = map trim rawstrs" by blast
  then have trimmed: "\<forall>opt\<in>set opts. trim opt = opt" by (auto simp: trim_idem)
  from q have qt: "trim q = q"
    by (auto simp: assertString_def trim_idem split: jsv.splits)
  from chk have voc: "ty = js ''vocabulary'' \<longrightarrow>
              validateVocabularyExercise
                (JObj (AList.update (js ''options'') (JArr (map JStr opts)) (ownProps e))) = Inr ()"
    by (cases "ty = js ''vocabulary''") simp_all
  show ?thesis
    using tyin ex rn nlt trimmed qt qc voc by metis
qed

lemma validateVocabularyExercise_Inr:
  assumes "validateVocabularyExercise v = Inr u"
    and "getProp v (js ''options'') = JArr (map JStr opts)"
  shows "\<exists>w. getProp v (js ''word'') = JStr w
           \<and> (length opts = 3 \<or> length opts = 4)
           \<and> (LATIN_REGEX_test (trim w) \<or> CYRILLIC_REGEX_test (trim w))
           \<and> (LATIN_REGEX_test (trim w) \<longrightarrow> list_all (\<lambda>opt. CYRILLIC_REGEX_test (trim opt)) opts)
           \<and> (CYRILLIC_REGEX_test (trim w) \<longrightarrow> list_all (\<lambda>opt. LATIN_REGEX_test (trim opt)) opts)"
proof -
  from assms have "\<exists>t. assertString (nullishOr (getProp v (js ''word'')) (JStr [])) = Inr t
    \<and> (length opts = 3 \<or> length opts = 4)
    \<and> (LATIN_REGEX_test t \<or> CYRILLIC_REGEX_test t)
    \<and> (LATIN_REGEX_test t \<longrightarrow> list_all (\<lambda>opt. CYRILLIC_REGEX_test (trim opt)) opts)
    \<and> (CYRILLIC_REGEX_test t \<longrightarrow> list_all (\<lambda>opt. LATIN_REGEX_test (trim opt)) opts)"
    by (auto simp: validateVocabularyExercise_def assertArray_def every_assertString Let_def
             split: if_splits sum.splits)
  then obtain t where t: "assertString (nullishOr (getProp v (js ''word'')) (JStr [])) = Inr t"
    and len: "length opts = 3 \<or> length opts = 4"
    and script': "LATIN_REGEX_test t \<or> CYRILLIC_REGEX_test t"
    and lat': "LATIN_REGEX_test t \<longrightarrow> list_all (\<lambda>opt. CYRILLIC_REGEX_test (trim opt)) opts"
    and cyr': "CYRILLIC_REGEX_test t \<longrightarrow> list_all (\<lambda>opt. LATIN_REGEX_test (trim opt)) opts"
    by blast
  from assertString_Inr[OF t] obtain w where
    w: "nullishOr (getProp v (js ''word'')) (JStr []) = JStr w" and tw: "t = trim w" by blast
  note script = script'[unfolded tw] and lat = lat'[unfolded tw] and cyr = cyr'[unfolded tw]
  from script have "trim w \<noteq> []"
    by (auto simp: LATIN_REGEX_test_def CYRILLIC_REGEX_test_def)
  then have "w \<noteq> []" by (auto simp: trim_def)
  with w have "getProp v (js ''word'') = JStr w"
    by (auto simp: nullishOr_def split: if_splits)
  with len script lat cyr show ?thesis by blast
qed

lemmas exercise_eval =
  validateExercise_def validateVocabularyExercise_def validateNonVocabularyOptions_def
  assertString_def assertArray_def trim_def isWhiteSpace_def js_def EXERCISE_TYPES_def
  CYRILLIC_REGEX_test_def LATIN_REGEX_test_def isCyrillic_def isLatin_def nullishOr_def
  exerciseOf_def vocabularyExercise_def russianQuestion_def russianOptions_def mixedOptions_def
  Let_def

lemma vocab_ok: "validateExercise (vocabularyExercise russianOptions) = Inr (vocabularyExercise russianOptions)"
  by (simp add: exercise_eval)

lemma vocab_mixed_ok: "validateExercise (vocabularyExercise mixedOptions) = Inr (vocabularyExercise mixedOptions)"
  by (simp add: exercise_eval)

lemma topic_ok: "validateExercise (exerciseOf ''topic'' russianOptions []) = Inr (exerciseOf ''topic'' russianOptions [])"
  by (simp add: exercise_eval)

lemma statement_ok: "validateExercise (exerciseOf ''statementCheck'' russianOptions []) = Inr (exerciseOf ''statementCheck'' russianOptions [])"
  by (simp add: exercise_eval)

lemma sample_types:
  "getProp (vocabularyExercise opts) (js ''type'') = JStr (js ''vocabulary'')"
  "getProp (exerciseOf t opts extra) (js ''type'') = JStr (js t)"
  by (simp_all add: vocabularyExercise_def exerciseOf_def)

lemma seven_ok: "validateExercisesStructure (JArr sevenExercises) = Inr sevenExercises"
  by (simp add: validateExercisesStructure_def assertArray_def sevenExercises_def vocab_ok topic_ok statement_ok
       typeCount_def sample_types js_eq_iff)

lemma mixed_ok: "validateExercisesStructure (JArr mixedScriptExercises) = Inr mixedScriptExercises"
  by (simp add: validateExercisesStructure_def assertArray_def mixedScriptExercises_def vocab_ok vocab_mixed_ok topic_ok statement_ok
       typeCount_def sample_types js_eq_iff)

lemma exercise_types:
  "EXERCISE_TYPES = [js ''vocabulary'', js ''topic'', js ''statementCheck'']"
  by (simp add: EXERCISE_TYPES_def)

lemma normalized_exercise:
  assumes "validateExercise e = Inr ex"
  shows "\<exists>etype opts n.
           etype \<in> set EXERCISE_TYPES
         \<and> getProp ex (js ''type'') = JStr etype
         \<and> getProp ex (js ''options'') = JArr (map JStr opts)
         \<and> (\<forall>opt\<in>set opts. trim opt = opt)
         \<and> getProp ex (js ''correctAnswer'') = JNum (Finite (real n))
         \<and> n < length opts
         \<and> (etype = js ''vocabulary'' \<longrightarrow>
              (\<exists>w. getProp ex (js ''word'') = JStr w
                 \<and> (length opts = 3 \<or> length opts = 4)
                 \<and> (LATIN_REGEX_test (trim w) \<or> CYRILLIC_REGEX_test (trim w))
                 \<and> (LATIN_REGEX_test (trim w) \<longrightarrow> list_all CYRILLIC_REGEX_test opts)
                 \<and> (CYRILLIC_REGEX_test (trim w) \<longrightarrow> list_all LATIN_REGEX_test opts)))"
proof -
  from validateExercise_Inr[OF assms] obtain etype question opts n where
    ty: "etype \<in> set EXERCISE_TYPES"
    and ex: "ex = JObj (AList.update (js ''type'') (JStr etype)
                 (AList.update (js ''correctAnswer'') (JNum (Finite (real n)))
                 (AList.update (js ''options'') (JArr (map JStr opts))
                 (AList.update (js ''question'') (JStr question) (ownProps e)))))"
    and n: "n < length opts"
    and trimmed: "\<forall>opt\<in>set opts. trim opt = opt"
    and voc: "etype = js ''vocabulary'' \<longrightarrow>
              validateVocabularyExercise
                (JObj (AList.update (js ''options'') (JArr (map JStr opts)) (ownProps e))) = Inr ()"
    by blast
  have p1: "getProp ex (js ''type'') = JStr etype"
    and p2: "getProp ex (js ''options'') = JArr (map JStr opts)"
    and p3: "getProp ex (js ''correctAnswer'') = JNum (Finite (real n))"
    and p4: "getProp ex (js ''word'') = getProp (JObj (ownProps e)) (js ''word'')"
    unfolding ex by (simp_all add: getProp_update js_eq_iff del: getProp.simps)
  have same: "list_all (\<lambda>opt. P (trim opt)) opts = list_all P opts" for P
    using trimmed by (simp add: list_all_iff)
  have "\<exists>w. getProp ex (js ''word'') = JStr w
                 \<and> (length opts = 3 \<or> length opts = 4)
                 \<and> (LATIN_REGEX_test (trim w) \<or> CYRILLIC_REGEX_test (trim w))
                 \<and> (LATIN_REGEX_test (trim w) \<longrightarrow> list_all CYRILLIC_REGEX_test opts)
                 \<and> (CYRILLIC_REGEX_test (trim w) \<longrightarrow> list_all LATIN_REGEX_test opts)"
    if v: "etype = js ''vocabulary''"
  proof -
    let ?v = "JObj (AList.update (js ''options'') (JArr (map JStr opts)) (ownProps e))"
    from voc v have ok: "validateVocabularyExercise ?v = Inr ()" by simp
    have o: "getProp ?v (js ''options'') = JArr (map JStr opts)"
      by (simp add: getProp_update del: getProp.simps)
    have w: "getProp ?v (js ''word'') = getProp (JObj (ownProps e)) (js ''word'')"
      by (simp add: getProp_update js_eq_iff del: getProp.simps)
    from validateVocabularyExercise_Inr[OF ok o] show ?thesis
      unfolding w p4 same by blast
  qed
  with ty p1 p2 p3 n trimmed show ?thesis by blast
qed

lemma count_three_way:
  assumes "\<forall>x\<in>set xs. f x = a \<or> f x = b \<or> f x = c" "a \<noteq> b" "a \<noteq> c" "b \<noteq> c"
  shows "length xs = length (filter (\<lambda>x. f x = a) xs) + length (filter (\<lambda>x. f x = b) xs)
                     + length (filter (\<lambda>x. f x = c) xs)"
  using assms by (induction xs) auto

lemma cyrillic_nonempty: "CYRILLIC_REGEX_test s \<Longrightarrow> s \<noteq> []"
  by (auto simp: CYRILLIC_REGEX_test_def)

lemma latin_nonempty: "LATIN_REGEX_test s \<Longrightarrow> s \<noteq> []"
  by (auto simp: LATIN_REGEX_test_def)

lemma validateExercisesStructure_Inr:
  assumes "validateExercisesStructure exercises = Inr normalized"
  shows "\<exists>raw. mapE validateExercise raw = Inr normalized
             \<and> 3 \<le> typeCount ''vocabulary'' normalized
             \<and> typeCount ''vocabulary'' normalized \<le> 4
             \<and> typeCount ''topic'' normalized = 1
             \<and> 1 \<le> typeCount ''statementCheck'' normalized"
  using assms
  by (auto simp: validateExercisesStructure_def assertArray_def Let_def
           split: sum.splits jsv.splits if_splits)


section \<open>Properties\<close>

subsection \<open>Exercise sets\<close>

text \<open>
  C1 (as amended). Every exercise array that \<open>validateExercisesStructure\<close> accepts has 3 or
  4 vocabulary exercises, exactly 1 topic exercise and at least 1 statementCheck
  exercise; every exercise is of one of these three types, so the total is their sum
  and at least 5 (there is no upper bound on statementCheck exercises). Every exercise
  has options that are trimmed strings and a \<open>correctAnswer\<close> that is an integer
  with \<open>0 \<le> correctAnswer < |options|\<close>; a vocabulary exercise has 3 or 4 options, none
  of them empty.
\<close>

theorem exercises_composition:
  assumes ok: "validateExercisesStructure exercises = Inr normalized"
  shows "(typeCount ''vocabulary'' normalized = 3 \<or> typeCount ''vocabulary'' normalized = 4)
       \<and> typeCount ''topic'' normalized = 1
       \<and> 1 \<le> typeCount ''statementCheck'' normalized
       \<and> length normalized = typeCount ''vocabulary'' normalized + typeCount ''topic'' normalized
                              + typeCount ''statementCheck'' normalized
       \<and> 5 \<le> length normalized
       \<and> (\<forall>ex\<in>set normalized.
            \<exists>opts n. getProp ex (js ''options'') = JArr (map JStr opts)
                   \<and> (\<forall>opt\<in>set opts. trim opt = opt)
                   \<and> getProp ex (js ''correctAnswer'') = JNum (Finite (real n))
                   \<and> n < length opts
                   \<and> (getProp ex (js ''type'') = JStr (js ''vocabulary'') \<longrightarrow>
                        (length opts = 3 \<or> length opts = 4) \<and> [] \<notin> set opts))"
proof -
  from validateExercisesStructure_Inr[OF ok] obtain raw where
    raw: "mapE validateExercise raw = Inr normalized"
    and v3: "3 \<le> typeCount ''vocabulary'' normalized"
    and v4: "typeCount ''vocabulary'' normalized \<le> 4"
    and t: "typeCount ''topic'' normalized = 1"
    and s: "1 \<le> typeCount ''statementCheck'' normalized"
    by blast
  from v3 v4 have v: "typeCount ''vocabulary'' normalized = 3 \<or> typeCount ''vocabulary'' normalized = 4"
    by linarith
  have each: "\<exists>e. validateExercise e = Inr ex" if "ex \<in> set normalized" for ex
    using mapE_set[OF raw that] by blast
  have types: "\<forall>ex\<in>set normalized. getProp ex (js ''type'') = JStr (js ''vocabulary'')
                 \<or> getProp ex (js ''type'') = JStr (js ''topic'')
                 \<or> getProp ex (js ''type'') = JStr (js ''statementCheck'')"
  proof
    fix ex assume "ex \<in> set normalized"
    from each[OF this] obtain e where "validateExercise e = Inr ex" ..
    from normalized_exercise[OF this] show "getProp ex (js ''type'') = JStr (js ''vocabulary'')
                 \<or> getProp ex (js ''type'') = JStr (js ''topic'')
                 \<or> getProp ex (js ''type'') = JStr (js ''statementCheck'')"
      by (auto simp: exercise_types)
  qed
  have total: "length normalized = typeCount ''vocabulary'' normalized + typeCount ''topic'' normalized
                              + typeCount ''statementCheck'' normalized"
    unfolding typeCount_def
    by (rule count_three_way[OF types]) (simp_all add: js_eq_iff)
  have five: "5 \<le> length normalized" using total v t s by linarith
  have per: "\<exists>opts n. getProp ex (js ''options'') = JArr (map JStr opts)
                   \<and> (\<forall>opt\<in>set opts. trim opt = opt)
                   \<and> getProp ex (js ''correctAnswer'') = JNum (Finite (real n))
                   \<and> n < length opts
                   \<and> (getProp ex (js ''type'') = JStr (js ''vocabulary'') \<longrightarrow>
                        (length opts = 3 \<or> length opts = 4) \<and> [] \<notin> set opts)"
    if "ex \<in> set normalized" for ex
  proof -
    from each[OF that] obtain e where "validateExercise e = Inr ex" ..
    from normalized_exercise[OF this] obtain etype opts n where
      a: "getProp ex (js ''type'') = JStr etype"
         "getProp ex (js ''options'') = JArr (map JStr opts)"
         "\<forall>opt\<in>set opts. trim opt = opt"
         "getProp ex (js ''correctAnswer'') = JNum (Finite (real n))"
         "n < length opts"
      and voc: "etype = js ''vocabulary'' \<longrightarrow>
              (\<exists>w. (length opts = 3 \<or> length opts = 4)
                 \<and> (LATIN_REGEX_test (trim w) \<or> CYRILLIC_REGEX_test (trim w))
                 \<and> (LATIN_REGEX_test (trim w) \<longrightarrow> list_all CYRILLIC_REGEX_test opts)
                 \<and> (CYRILLIC_REGEX_test (trim w) \<longrightarrow> list_all LATIN_REGEX_test opts))"
      by blast
    have "(length opts = 3 \<or> length opts = 4) \<and> [] \<notin> set opts"
      if "getProp ex (js ''type'') = JStr (js ''vocabulary'')"
    proof -
      from that a(1) have "etype = js ''vocabulary''" by simp
      with voc obtain w where len: "length opts = 3 \<or> length opts = 4"
        and "list_all CYRILLIC_REGEX_test opts \<or> list_all LATIN_REGEX_test opts"
        by blast
      then have "[] \<notin> set opts"
        by (auto simp: list_all_iff dest: cyrillic_nonempty latin_nonempty)
      with len show ?thesis by simp
    qed
    with a show ?thesis by blast
  qed
  from v t s total five per show ?thesis by blast
qed

lemma hd_seven:
  "hd sevenExercises \<in> set sevenExercises"
  "getProp (hd sevenExercises) (js ''type'') = JStr (js ''vocabulary'')"
  by (simp_all add: sevenExercises_def sample_types)

theorem exercises_composition_witness:
  "validateExercisesStructure (JArr sevenExercises) = Inr sevenExercises
   \<and> (typeCount ''vocabulary'' sevenExercises = 3 \<or> typeCount ''vocabulary'' sevenExercises = 4)
   \<and> typeCount ''topic'' sevenExercises = 1
   \<and> 1 \<le> typeCount ''statementCheck'' sevenExercises
   \<and> 5 \<le> length sevenExercises
   \<and> (\<exists>opts n. getProp (hd sevenExercises) (js ''options'') = JArr (map JStr opts)
                \<and> getProp (hd sevenExercises) (js ''correctAnswer'') = JNum (Finite (real n))
                \<and> n < length opts
                \<and> (length opts = 3 \<or> length opts = 4) \<and> [] \<notin> set opts)"
  using seven_ok exercises_composition[OF seven_ok] hd_seven by blast

text \<open>
  The claim as first stated asks for a total of 5 or 6 exercises. An array of 3
  vocabulary, 1 topic and 3 statementCheck exercises is accepted, and has 7.
\<close>

theorem exercises_total_counterexample:
  "validateExercisesStructure (JArr sevenExercises) = Inr sevenExercises
   \<and> length sevenExercises = 7"
  by (simp add: seven_ok) (simp add: sevenExercises_def)

text \<open>
  C3 (as amended). In every accepted exercise array, a vocabulary exercise has a word that
  holds a Latin or a Cyrillic letter; if the word holds a Latin letter, every option
  holds a Cyrillic letter, and if the word holds a Cyrillic letter, every option holds a
  Latin letter. (An option may hold letters of the word's script as well.)
\<close>

theorem vocabulary_script_rule:
  assumes ok: "validateExercisesStructure exercises = Inr normalized"
  shows "\<forall>ex\<in>set normalized.
           getProp ex (js ''type'') = JStr (js ''vocabulary'') \<longrightarrow>
           (\<exists>w opts. getProp ex (js ''word'') = JStr w
              \<and> getProp ex (js ''options'') = JArr (map JStr opts)
              \<and> (LATIN_REGEX_test (trim w) \<or> CYRILLIC_REGEX_test (trim w))
              \<and> (LATIN_REGEX_test (trim w) \<longrightarrow> (\<forall>opt\<in>set opts. CYRILLIC_REGEX_test opt))
              \<and> (CYRILLIC_REGEX_test (trim w) \<longrightarrow> (\<forall>opt\<in>set opts. LATIN_REGEX_test opt)))"
proof (intro ballI impI)
  fix ex assume mem: "ex \<in> set normalized"
    and voc: "getProp ex (js ''type'') = JStr (js ''vocabulary'')"
  from validateExercisesStructure_Inr[OF ok] obtain raw where
    raw: "mapE validateExercise raw = Inr normalized"
    by blast
  from mapE_set[OF raw mem] obtain e where "validateExercise e = Inr ex" by blast
  from normalized_exercise[OF this] voc
  show "\<exists>w opts. getProp ex (js ''word'') = JStr w
              \<and> getProp ex (js ''options'') = JArr (map JStr opts)
              \<and> (LATIN_REGEX_test (trim w) \<or> CYRILLIC_REGEX_test (trim w))
              \<and> (LATIN_REGEX_test (trim w) \<longrightarrow> (\<forall>opt\<in>set opts. CYRILLIC_REGEX_test opt))
              \<and> (CYRILLIC_REGEX_test (trim w) \<longrightarrow> (\<forall>opt\<in>set opts. LATIN_REGEX_test opt))"
    by (auto simp: list_all_iff)
qed

lemma hd_mixed:
  "hd mixedScriptExercises \<in> set mixedScriptExercises"
  "getProp (hd mixedScriptExercises) (js ''type'') = JStr (js ''vocabulary'')"
  "getProp (hd mixedScriptExercises) (js ''word'') = JStr (js ''cat'')"
  "getProp (hd mixedScriptExercises) (js ''options'') = JArr (map JStr mixedOptions)"
  by (simp_all add: mixedScriptExercises_def vocabularyExercise_def exerciseOf_def js_eq_iff)

lemma cat_is_latin: "LATIN_REGEX_test (trim (js ''cat''))" "LATIN_REGEX_test (js ''cat'')"
  by (simp_all add: LATIN_REGEX_test_def isLatin_def js_def trim_def isWhiteSpace_def)

theorem vocabulary_script_rule_witness:
  "validateExercisesStructure (JArr mixedScriptExercises) = Inr mixedScriptExercises
   \<and> getProp (hd mixedScriptExercises) (js ''type'') = JStr (js ''vocabulary'')
   \<and> LATIN_REGEX_test (trim (js ''cat''))
   \<and> (\<exists>opts. getProp (hd mixedScriptExercises) (js ''word'') = JStr (js ''cat'')
              \<and> getProp (hd mixedScriptExercises) (js ''options'') = JArr (map JStr opts)
              \<and> (\<forall>opt\<in>set opts. CYRILLIC_REGEX_test opt))"
proof -
  from vocabulary_script_rule[OF mixed_ok] hd_mixed(1,2)
  obtain w opts where w: "getProp (hd mixedScriptExercises) (js ''word'') = JStr w"
    and opts: "getProp (hd mixedScriptExercises) (js ''options'') = JArr (map JStr opts)"
    and rule: "LATIN_REGEX_test (trim w) \<longrightarrow> (\<forall>opt\<in>set opts. CYRILLIC_REGEX_test opt)"
    by blast
  from w hd_mixed(3) have "w = js ''cat''" by simp
  with rule cat_is_latin(1) have "\<forall>opt\<in>set opts. CYRILLIC_REGEX_test opt" by simp
  with opts hd_mixed(3) mixed_ok hd_mixed(2) cat_is_latin(1) show ?thesis by blast
qed

text \<open>
  The claim as first stated says that no option holds a letter of the word's script. The
  first exercise of \<open>mixedScriptExercises\<close> is an accepted vocabulary exercise whose word
  \<open>cat\<close> is Latin and whose first option holds the Latin letters \<open>cat\<close> after a Russian
  word.
\<close>

theorem vocabulary_script_counterexample:
  "validateExercisesStructure (JArr mixedScriptExercises) = Inr mixedScriptExercises
   \<and> getProp (hd mixedScriptExercises) (js ''type'') = JStr (js ''vocabulary'')
   \<and> getProp (hd mixedScriptExercises) (js ''word'') = JStr (js ''cat'')
   \<and> getProp (hd mixedScriptExercises) (js ''options'') = JArr (map JStr mixedOptions)
   \<and> LATIN_REGEX_test (js ''cat'')
   \<and> LATIN_REGEX_test (hd mixedOptions)"
proof -
  have "LATIN_REGEX_test (hd mixedOptions)"
    by (simp add: LATIN_REGEX_test_def isLatin_def mixedOptions_def)
  with mixed_ok hd_mixed cat_is_latin(2) show ?thesis by simp
qed

subsection \<open>Transcription variants\<close>

lemma vts_fullText:
  assumes "validateTranscriptionStructure t = Inr p"
  shows "\<exists>s cs. nullishOr (getProp t (js ''fullText'')) (nullishOr (getProp t (js ''text'')) (JStr [])) = JStr s
             \<and> p = JObj [(js ''fullText'', JStr (trim s)), (js ''text'', JStr (trim s)), (js ''chunks'', JArr cs)]"
  using assms
  by (auto simp: validateTranscriptionStructure_def assertString_def
           split: if_splits sum.splits jsv.splits)

lemma getProp_fullText_view:
  "getProp (JObj [(js ''fullText'', a), (js ''text'', b), (js ''chunks'', c)]) (js ''fullText'') = a"
  by simp

text \<open>
  C4. \<open>validateTranscriptionVariantsStructure\<close> succeeds only when the three views
  validate and their (trimmed) \<open>fullText\<close> is one and the same string, which is also
  the \<open>fullText\<close> of the result; when the three views validate and the texts are not
  all the same, it raises a ValidationError.
\<close>

theorem variants_share_fullText:
  "(validateTranscriptionVariantsStructure tv = Inr r \<longrightarrow>
      (\<exists>plain phrases words s.
         validateTranscriptionStructure (getProp tv (js ''plain'')) = Inr plain
       \<and> validateTranscriptionStructure (getProp tv (js ''phrases'')) = Inr phrases
       \<and> validateTranscriptionStructure (getProp tv (js ''words'')) = Inr words
       \<and> getProp plain (js ''fullText'') = JStr s
       \<and> getProp phrases (js ''fullText'') = JStr s
       \<and> getProp words (js ''fullText'') = JStr s
       \<and> r = JObj [(js ''plain'', plain), (js ''phrases'', phrases),
                   (js ''words'', words), (js ''fullText'', JStr s)]))
   \<and> (truthy tv \<and> typeof tv = ''object''
       \<and> validateTranscriptionStructure (getProp tv (js ''plain'')) = Inr plain'
       \<and> validateTranscriptionStructure (getProp tv (js ''phrases'')) = Inr phrases'
       \<and> validateTranscriptionStructure (getProp tv (js ''words'')) = Inr words'
       \<and> \<not> (getProp plain' (js ''fullText'') = getProp phrases' (js ''fullText'')
            \<and> getProp phrases' (js ''fullText'') = getProp words' (js ''fullText''))
      \<longrightarrow> validateTranscriptionVariantsStructure tv = Inl ValidationError)"
proof (intro conjI impI)
  assume ok: "validateTranscriptionVariantsStructure tv = Inr r"
  then obtain plain phrases words where
    p: "validateTranscriptionStructure (getProp tv (js ''plain'')) = Inr plain" and
    ph: "validateTranscriptionStructure (getProp tv (js ''phrases'')) = Inr phrases" and
    w: "validateTranscriptionStructure (getProp tv (js ''words'')) = Inr words" and
    eq1: "getProp phrases (js ''fullText'') = getProp plain (js ''fullText'')" and
    eq2: "getProp words (js ''fullText'') = getProp plain (js ''fullText'')" and
    r: "r = JObj [(js ''plain'', plain), (js ''phrases'', phrases),
                  (js ''words'', words), (js ''fullText'', getProp plain (js ''fullText''))]"
    by (auto simp: validateTranscriptionVariantsStructure_def Let_def
             split: if_splits sum.splits)
  from vts_fullText[OF p] obtain s where "getProp plain (js ''fullText'') = JStr (trim s)"
    using getProp_fullText_view by auto
  with p ph w eq1 eq2 r show "\<exists>plain phrases words s.
         validateTranscriptionStructure (getProp tv (js ''plain'')) = Inr plain
       \<and> validateTranscriptionStructure (getProp tv (js ''phrases'')) = Inr phrases
       \<and> validateTranscriptionStructure (getProp tv (js ''words'')) = Inr words
       \<and> getProp plain (js ''fullText'') = JStr s
       \<and> getProp phrases (js ''fullText'') = JStr s
       \<and> getProp words (js ''fullText'') = JStr s
       \<and> r = JObj [(js ''plain'', plain), (js ''phrases'', phrases),
                   (js ''words'', words), (js ''fullText'', JStr s)]"
    by auto
next
  assume "truthy tv \<and> typeof tv = ''object''
       \<and> validateTranscriptionStructure (getProp tv (js ''plain'')) = Inr plain'
       \<and> validateTranscriptionStructure (getProp tv (js ''phrases'')) = Inr phrases'
       \<and> validateTranscriptionStructure (getProp tv (js ''words'')) = Inr words'
       \<and> \<not> (getProp plain' (js ''fullText'') = getProp phrases' (js ''fullText'')
            \<and> getProp phrases' (js ''fullText'') = getProp words' (js ''fullText''))"
  then show "validateTranscriptionVariantsStructure tv = Inl ValidationError"
    by (auto simp: validateTranscriptionVariantsStructure_def Let_def)
qed

lemma viewOf_validates:
  "validateTranscriptionStructure (viewOf '' hi there'') = Inr (validatedViewOf ''hi there'')"
  "validateTranscriptionStructure (viewOf ''hi there '') = Inr (validatedViewOf ''hi there'')"
  "validateTranscriptionStructure (viewOf ''hi there'') = Inr (validatedViewOf ''hi there'')"
  "validateTranscriptionStructure (viewOf ''hi here'') = Inr (validatedViewOf ''hi here'')"
  by (simp_all add: viewOf_def validatedViewOf_def validateTranscriptionStructure_def js_def
        assertString_def nullishOr_def logicalOr_def trim_def isWhiteSpace_def)

lemma variantsOf_props:
  "getProp (variantsOf a b c) (js ''plain'') = viewOf a"
  "getProp (variantsOf a b c) (js ''phrases'') = viewOf b"
  "getProp (variantsOf a b c) (js ''words'') = viewOf c"
  "truthy (variantsOf a b c)" "typeof (variantsOf a b c) = ''object''"
  by (simp_all add: variantsOf_def js_eq_iff)

lemma validatedViewOf_fullText: "getProp (validatedViewOf a) (js ''fullText'') = JStr (js a)"
  by (simp add: validatedViewOf_def)

theorem variants_share_fullText_witness:
  "validateTranscriptionVariantsStructure (variantsOf '' hi there'' ''hi there '' ''hi there'')
     = Inr (JObj [(js ''plain'', validatedViewOf ''hi there''),
                  (js ''phrases'', validatedViewOf ''hi there''),
                  (js ''words'', validatedViewOf ''hi there''),
                  (js ''fullText'', JStr (js ''hi there''))])
   \<and> validateTranscriptionStructure (getProp (variantsOf ''hi there'' ''hi here'' ''hi there'') (js ''phrases''))
       = Inr (validatedViewOf ''hi here'')
   \<and> validateTranscriptionVariantsStructure (variantsOf ''hi there'' ''hi here'' ''hi there'')
       = Inl ValidationError"
proof -
  let ?good = "variantsOf '' hi there'' ''hi there '' ''hi there''"
  let ?bad = "variantsOf ''hi there'' ''hi here'' ''hi there''"
  have good: "validateTranscriptionVariantsStructure ?good
     = Inr (JObj [(js ''plain'', validatedViewOf ''hi there''),
                  (js ''phrases'', validatedViewOf ''hi there''),
                  (js ''words'', validatedViewOf ''hi there''),
                  (js ''fullText'', JStr (js ''hi there''))])"
    by (simp add: validateTranscriptionVariantsStructure_def variantsOf_props viewOf_validates
          validatedViewOf_fullText Let_def)
  have differ: "\<not> (getProp (validatedViewOf ''hi there'') (js ''fullText'')
                    = getProp (validatedViewOf ''hi here'') (js ''fullText'')
                  \<and> getProp (validatedViewOf ''hi here'') (js ''fullText'')
                    = getProp (validatedViewOf ''hi there'') (js ''fullText''))"
    by (simp add: validatedViewOf_fullText js_eq_iff)
  have "validateTranscriptionVariantsStructure ?bad = Inl ValidationError"
    using variants_share_fullText[of ?bad _ "validatedViewOf ''hi there''"
            "validatedViewOf ''hi here''" "validatedViewOf ''hi there''"] differ
    by (simp add: variantsOf_props viewOf_validates)
  with good show ?thesis by (simp add: variantsOf_props viewOf_validates)
qed

subsection \<open>Analysis topics\<close>

text \<open>
  C10. The topics of every analysis that \<open>validateAnalysisStructure\<close> accepts hold no
  value twice, whatever the input repeats and in whatever casing.
\<close>

theorem topics_distinct:
  assumes "validateAnalysisStructure U analysis = Inr r"
  shows "\<exists>topics. getProp r (js ''topics'') = JArr topics \<and> distinct topics"
  using assms
  by (auto simp: validateAnalysisStructure_def Let_def js_eq_iff distinct_arrayFromSet
                 take3_videoTopics
           split: if_splits sum.splits)

lemma repeated_topics_ok:
  "validateAnalysisStructure asciiCasing
     (analysisWith [JStr (js '' Technology''), JStr (js ''TECHNOLOGY''), JStr (js ''science''),
                    JStr (js ''technology'')])
   = Inr (validatedAnalysisWith [JStr (js ''Technology''), JStr (js ''Science'')])"
  by (simp add: analysis_eval)

theorem topics_distinct_witness:
  "validateAnalysisStructure asciiCasing
     (analysisWith [JStr (js '' Technology''), JStr (js ''TECHNOLOGY''), JStr (js ''science''),
                    JStr (js ''technology'')])
   = Inr (validatedAnalysisWith [JStr (js ''Technology''), JStr (js ''Science'')])
   \<and> getProp (validatedAnalysisWith [JStr (js ''Technology''), JStr (js ''Science'')]) (js ''topics'')
     = JArr [JStr (js ''Technology''), JStr (js ''Science'')]
   \<and> distinct [JStr (js ''Technology''), JStr (js ''Science'')]"
  using repeated_topics_ok topics_distinct[OF repeated_topics_ok]
  by (simp add: validatedAnalysisWith_def js_eq_iff)

text \<open>
  C6. The claim: unknown topics are dropped and the topics of an accepted analysis are
  catalog entries. The code looks a topic up with \<open>TOPIC_LOOKUP[value]\<close> in a plain
  object, which also finds the members inherited from \<open>Object.prototype\<close>. For the
  topic \<open>constructor\<close>, which is not in the catalog, the lookup gives the inherited
  function; it is truthy, so it is kept, and the accepted analysis has it as its only
  topic, instead of the first three catalog entries.
\<close>

theorem prototype_topic_kept:
  "validateAnalysisStructure asciiCasing (analysisWith [JStr (js ''constructor'')])
     = Inr (validatedAnalysisWith [JBuiltin (js ''constructor'')])
   \<and> getProp (validatedAnalysisWith [JBuiltin (js ''constructor'')]) (js ''topics'')
     = JArr [JBuiltin (js ''constructor'')]
   \<and> JBuiltin (js ''constructor'') \<notin> set (map JStr videoTopics)
   \<and> js ''constructor'' \<notin> set (map asciiLower videoTopics)"
proof -
  have "js ''constructor'' \<notin> set (map asciiLower videoTopics)"
    unfolding lowered_topics by (simp add: js_eq_iff)
  moreover have "getProp (validatedAnalysisWith [JBuiltin (js ''constructor'')]) (js ''topics'')
     = JArr [JBuiltin (js ''constructor'')]"
    by (simp add: validatedAnalysisWith_def js_eq_iff)
  ultimately show ?thesis by (auto simp add: analysis_eval)
qed

theorem prototype_topic_kept_witness:
  "validateAnalysisStructure asciiCasing (analysisWith [JStr (js ''constructor'')])
     = Inr (validatedAnalysisWith [JBuiltin (js ''constructor'')])
   \<and> JBuiltin (js ''constructor'') \<notin> set (map JStr videoTopics)"
  using prototype_topic_kept by blast

subsection \<open>Validating twice\<close>

text \<open>
  C8. The claim: a validator accepts its own output and returns it unchanged. For the
  analysis validator this fails on the input above: the accepted analysis has the
  inherited function as a topic, and validating it again raises a ValidationError,
  since that topic is not a string. It is the defect of C6.
\<close>

theorem analysis_revalidation_fails:
  "validateAnalysisStructure asciiCasing (analysisWith [JStr (js ''constructor'')])
     = Inr (validatedAnalysisWith [JBuiltin (js ''constructor'')])
   \<and> validateAnalysisStructure asciiCasing (validatedAnalysisWith [JBuiltin (js ''constructor'')])
     = Inl ValidationError"
proof -
  have "validateAnalysisStructure asciiCasing (validatedAnalysisWith [JBuiltin (js ''constructor'')])
     = Inl ValidationError"
    by (simp add: validateAnalysisStructure_def validatedAnalysisWith_def js_eq_iff
          assertString_def trim_def isWhiteSpace_def asciiCasing_sel asciiUpper_def asciiLower_def
          js_def CEFR_LEVELS_def cefrLevels_def SPEECH_SPEEDS_def GRAMMAR_COMPLEXITIES_def
          VOCABULARY_COMPLEXITIES_def assertArray_def Let_def)
  then show ?thesis by (simp add: analysis_eval)
qed

theorem analysis_revalidation_fails_witness:
  "validateAnalysisStructure asciiCasing (validatedAnalysisWith [JBuiltin (js ''constructor'')])
     = Inl ValidationError"
  using analysis_revalidation_fails by blast

subsection \<open>Translation batches\<close>

lemma no_override_default:
  assumes "GOOGLE_TRANSLATION_CHUNK_SIZE E = None"
  shows "DEFAULT_CHUNK_SIZE E = 40"
  using assms
  by (simp add: DEFAULT_CHUNK_SIZE_def translationChunkSize_def envOr_def parseInt_def Let_def)

lemma batch_count_step:
  assumes "0 < c" "i < (L::nat)"
  shows "(L - i + c - 1) div c = Suc ((L - (i + c) + c - 1) div c)"
proof (cases "i + c \<le> L")
  case True
  define m where "m = L - (i + c) + c - 1"
  have "L - i + c - 1 = m + c" unfolding m_def using True assms by linarith
  then have "(L - i + c - 1) div c = (m + c) div c" by (rule arg_cong)
  also have "\<dots> = Suc (m div c)" using assms(1) by simp
  finally show ?thesis unfolding m_def .
next
  case False
  then have a: "L - (i + c) = 0" by simp
  from False assms have b: "c \<le> L - i + c - 1" "L - i + c - 1 < 2 * c" by linarith+
  have "(L - i + c - 1) div c = 1"
    by (rule div_nat_eqI) (use b in simp_all)
  moreover have "(c - 1) div c = 0" using assms(1) by simp
  ultimately show ?thesis using a by simp
qed

lemma chunkLoop_closed:
  "0 < c \<Longrightarrow> chunkLoop items c i chunks
     = Some (chunks @ map (\<lambda>k. take c (drop (i + k * c) items)) [0..<(length items - i + c - 1) div c])"
proof (induction items c i chunks rule: chunkLoop.induct)
  case (1 items c i chunks)
  show ?case
  proof (cases "i < length items")
    case True
    have n: "(length items - i + c - 1) div c = Suc ((length items - (i + c) + c - 1) div c)"
      using batch_count_step[OF "1.prems" True] .
    have "chunkLoop items c i chunks = chunkLoop items c (i + c) (chunks @ [take c (drop i items)])"
      using True "1.prems" by (subst chunkLoop.simps) simp
    also have "\<dots> = Some ((chunks @ [take c (drop i items)]) @
          map (\<lambda>k. take c (drop (i + c + k * c) items)) [0..<(length items - (i + c) + c - 1) div c])"
      using "1.IH"[OF True _ "1.prems"] "1.prems" by simp
    also have "\<dots> = Some (chunks @ map (\<lambda>k. take c (drop (i + k * c) items)) [0..<(length items - i + c - 1) div c])"
      unfolding n map_upt_Suc by (simp add: ac_simps)
    finally show ?thesis .
  next
    case False
    then have "(length items - i + c - 1) div c = 0" using "1.prems" by simp
    with False show ?thesis by (subst chunkLoop.simps) simp
  qed
qed


lemma concat_batches:
  "concat (map (\<lambda>k. take c (drop (k * c) xs)) [0..<n]) = take (n * c) xs"
proof (induction n)
  case 0
  show ?case by simp
next
  case (Suc n)
  have "Suc n * c = n * c + c" by simp
  then have "take (Suc n * c) xs = take (n * c + c) xs" by (rule arg_cong)
  also have "\<dots> = take (n * c) xs @ take c (drop (n * c) xs)"
    by (rule take_add)
  finally have "take (Suc n * c) xs = take (n * c) xs @ take c (drop (n * c) xs)" .
  with Suc show ?case by simp
qed

lemma ceil_div_covers:
  assumes "0 < (c::nat)"
  shows "L \<le> ((L + c - 1) div c) * c"
proof -
  have "L + c - 1 = ((L + c - 1) div c) * c + (L + c - 1) mod c" by simp
  moreover have "(L + c - 1) mod c < c" using assms by simp
  ultimately show ?thesis by linarith
qed

lemma chunkArray_closed:
  assumes "0 < c"
  shows "\<exists>batches. chunkArray items c = Some batches
           \<and> concat batches = items
           \<and> (\<forall>k<length batches. batches ! k = take c (drop (c * k) items))"
proof (cases "length items \<le> c")
  case True
  then show ?thesis by (simp add: chunkArray_def)
next
  case False
  let ?n = "(length items + c - 1) div c"
  let ?bs = "map (\<lambda>k. take c (drop (k * c) items)) [0..<?n]"
  have "chunkArray items c = Some ?bs"
    using False chunkLoop_closed[OF assms, of items 0 "[]"] by (simp add: chunkArray_def)
  moreover have "concat ?bs = items"
    using ceil_div_covers[OF assms, of "length items"] by (simp add: concat_batches)
  moreover have "\<forall>k<length ?bs. ?bs ! k = take c (drop (c * k) items)"
    by (simp add: mult.commute)
  ultimately show ?thesis by blast
qed

lemma payload_indices:
  "map lineIndex (payload chunk offset) = map real [offset..<offset + length chunk]"
proof -
  have "map lineIndex (payload chunk offset) = map (\<lambda>index. real (offset + index)) [0..<length chunk]"
    by (simp add: payload_def)
  also have "\<dots> = map real (map (\<lambda>index. index + offset) [0..<length chunk])"
    by (simp add: add.commute)
  also have "\<dots> = map real [offset..<offset + length chunk]"
    by (simp only: map_add_upt add.commute)
  finally show ?thesis .
qed


text \<open>
  C9 (as amended). With \<open>GOOGLE_TRANSLATION_CHUNK_SIZE\<close> unset the batch size is 40, the
  default of \<open>translationChunkSize\<close> in config/config.js (the \<open>|| 60\<close> of the
  translator only replaces a configured value of zero, which the configuration never
  yields). \<open>chunkArray\<close> returns the batches whose concatenation is the input, batch
  \<open>k\<close> being the items from position \<open>40 k\<close> on, at most 40 of them; the payload of
  a batch at offset \<open>O\<close> carries the indices \<open>O, ..., O + len - 1\<close>.
\<close>

theorem default_batch_size:
  assumes "GOOGLE_TRANSLATION_CHUNK_SIZE E = None"
  shows "DEFAULT_CHUNK_SIZE E = 40
       \<and> (\<exists>batches. chunkArray items (nat (DEFAULT_CHUNK_SIZE E)) = Some batches
            \<and> concat batches = items
            \<and> (\<forall>k<length batches. batches ! k = take 40 (drop (40 * k) items)))
       \<and> map lineIndex (payload chunk offset) = map real [offset..<offset + length chunk]"
  using no_override_default[OF assms] chunkArray_closed[of 40 items] payload_indices
  by simp

lemma noOverrides_unset: "GOOGLE_TRANSLATION_CHUNK_SIZE noOverrides = None"
  by (simp add: noOverrides_def)

theorem default_batch_size_witness:
  "GOOGLE_TRANSLATION_CHUNK_SIZE noOverrides = None
   \<and> DEFAULT_CHUNK_SIZE noOverrides = 40
   \<and> (\<exists>batches. chunkArray (replicate 41 JNull) (nat (DEFAULT_CHUNK_SIZE noOverrides)) = Some batches
          \<and> concat batches = replicate 41 JNull)
   \<and> map lineIndex (payload [JNull, JNull] 40) = [40, 41]"
proof -
  from default_batch_size[OF noOverrides_unset, of "replicate 41 JNull" "[JNull, JNull]" 40]
  have "DEFAULT_CHUNK_SIZE noOverrides = 40"
    and "\<exists>batches. chunkArray (replicate 41 JNull) (nat (DEFAULT_CHUNK_SIZE noOverrides)) = Some batches
          \<and> concat batches = replicate 41 JNull"
    and "map lineIndex (payload [JNull, JNull] 40) = map real [40..<40 + length [JNull, JNull]]"
    by blast+
  moreover have "map real [40..<40 + length [JNull, JNull]] = [40, 41]"
    by (simp add: upt_rec)
  ultimately show ?thesis using noOverrides_unset by simp
qed

text \<open>
  The claim as first stated has batches of 60. With no override, 41 chunks are split
  into a batch of 40 and a batch of 1, where a batch size of 60 would keep them
  together.
\<close>

theorem default_batch_size_counterexample:
  "DEFAULT_CHUNK_SIZE noOverrides = 40
   \<and> chunkArray (replicate 41 JNull) (nat (DEFAULT_CHUNK_SIZE noOverrides))
       = Some [replicate 40 JNull, [JNull]]"
proof -
  have d: "DEFAULT_CHUNK_SIZE noOverrides = 40"
    by (rule no_override_default[OF noOverrides_unset])
  have "chunkArray (replicate 41 JNull) 40
          = Some (map (\<lambda>k. take 40 (drop (0 + k * 40) (replicate 41 JNull))) [0..<2])"
    using chunkLoop_closed[of 40 "replicate 41 JNull" 0 "[]"] by (simp add: chunkArray_def)
  also have "map (\<lambda>k. take 40 (drop (0 + k * 40) (replicate 41 JNull))) [0..<2]
          = [replicate 40 JNull, [JNull]]"
    by (simp add: upt_rec)
  finally show ?thesis using d by simp
qed

subsection \<open>Translating a transcription\<close>






















lemma max_attempts_pos: "0 < nat (MAX_ATTEMPTS E)"
  by (auto simp: MAX_ATTEMPTS_def translationAttempts_def max_def split: option.splits)



























text \<open>
  The run of \<open>recoveringModel\<close> on \<open>sampleView\<close>: the first attempt is rejected, the
  second answer has one item without an index, and the second line is translated by a
  retry that answers with a plain line.
\<close>

lemma recovering_translation:
  "translateTranscription noOverrides recoveringModel sampleView
     = Some (Inr (JObj [(js ''fullText'', JStr (privet @ [0x20] @ poka)),
                        (js ''text'', JStr (privet @ [0x20] @ poka)),
                        (js ''chunks'',
                         JArr [JObj [(js ''text'', JStr privet),
                                     (js ''timestamp'', JArr [JNum (Finite 0), JNum (Finite 1)])],
                               JObj [(js ''text'', JStr poka),
                                     (js ''timestamp'', JArr [JNum (Finite 1), JNum (Finite 2)])]])]))"
  by code_simp

subsection \<open>Grouping words into chunks\<close>

lemma trim_nonempty_iff: "trim s \<noteq> [] \<longleftrightarrow> filter (\<lambda>c. \<not> isWhiteSpace c) s \<noteq> []"
  by (simp add: trim_Nil_iff filter_empty_conv)

lemma ink_closeUp:
  "\<forall>c\<in>set ws. isWhiteSpace c \<Longrightarrow>
     filter (\<lambda>c. \<not> isWhiteSpace c) (closeUp ws s) = filter (\<lambda>c. \<not> isWhiteSpace c) s"
proof (induction s arbitrary: ws)
  case Nil
  then show ?case by (simp add: filter_empty_conv)
next
  case (Cons c cs)
  have ws: "filter (\<lambda>c. \<not> isWhiteSpace c) ws = []"
    using Cons.prems by (simp add: filter_empty_conv)
  show ?case
    using Cons.prems ws by (simp add: Cons.IH)
qed

lemma ink_openUp:
  "filter (\<lambda>c. \<not> isWhiteSpace c) (openUp skip s) = filter (\<lambda>c. \<not> isWhiteSpace c) s"
  by (induction s arbitrary: skip) auto

lemma ink_composeStep:
  assumes "filter (\<lambda>c. \<not> isWhiteSpace c) acc \<noteq> []
           \<or> trim (if wordOriginalText w \<noteq> [] then wordOriginalText w else wordText w) \<noteq> []"
  shows "filter (\<lambda>c. \<not> isWhiteSpace c) (composeStep acc w) \<noteq> []"
proof -
  let ?t = "trim (if wordOriginalText w \<noteq> [] then wordOriginalText w else wordText w)"
  have t: "?t \<noteq> [] \<Longrightarrow> filter (\<lambda>c. \<not> isWhiteSpace c) ?t \<noteq> []"
    using trim_nonempty_iff[of ?t] by (simp add: trim_idem)
  show ?thesis
  proof (cases "?t = []")
    case True
    with assms show ?thesis by (simp add: composeStep_def Let_def)
  next
    case False
    from t[OF False] show ?thesis
      by (auto simp: composeStep_def Let_def)
  qed
qed

lemma ink_compose_fold:
  assumes "filter (\<lambda>c. \<not> isWhiteSpace c) acc \<noteq> []
           \<or> (\<exists>w\<in>set ws. trim (if wordOriginalText w \<noteq> [] then wordOriginalText w else wordText w) \<noteq> [])"
  shows "filter (\<lambda>c. \<not> isWhiteSpace c) (foldl composeStep acc ws) \<noteq> []"
  using assms
proof (induction ws arbitrary: acc)
  case Nil
  then show ?case by simp
next
  case (Cons w ws)
  show ?case
  proof (cases "filter (\<lambda>c. \<not> isWhiteSpace c) (composeStep acc w) \<noteq> []")
    case True
    then show ?thesis using Cons.IH[of "composeStep acc w"] by simp
  next
    case False
    with ink_composeStep[of acc w] have
      "filter (\<lambda>c. \<not> isWhiteSpace c) acc = []"
      "trim (if wordOriginalText w \<noteq> [] then wordOriginalText w else wordText w) = []"
      by blast+
    with Cons.prems have "\<exists>w\<in>set ws. trim (if wordOriginalText w \<noteq> [] then wordOriginalText w else wordText w) \<noteq> []"
      by auto
    then show ?thesis using Cons.IH[of "composeStep acc w"] by simp
  qed
qed

lemma composeChunkText_nonempty:
  assumes "buffer \<noteq> []"
    and "\<forall>w\<in>set buffer. trim (if wordOriginalText w \<noteq> [] then wordOriginalText w else wordText w) \<noteq> []"
  shows "composeChunkText buffer \<noteq> []"
proof -
  from assms have "\<exists>w\<in>set buffer. trim (if wordOriginalText w \<noteq> [] then wordOriginalText w else wordText w) \<noteq> []"
    by (cases buffer) auto
  then have "filter (\<lambda>c. \<not> isWhiteSpace c) (foldl composeStep [] buffer) \<noteq> []"
    by (intro ink_compose_fold) simp
  then have "filter (\<lambda>c. \<not> isWhiteSpace c) (openUp False (closeUp [] (foldl composeStep [] buffer))) \<noteq> []"
    by (simp add: ink_openUp ink_closeUp)
  then show ?thesis
    unfolding composeChunkText_def trim_nonempty_iff .
qed


lemma flush_chunkOf:
  "flush buffer (map chunkOf buffers) = map chunkOf (flushWords buffer buffers)"
  by (simp add: flush_def flushWords_def chunkOf_def)

lemma groupLoop_bufferLoop:
  "groupLoop ov rest buffer (map chunkOf buffers)
     = (map chunkOf (fst (bufferLoop ov rest buffer buffers)), snd (bufferLoop ov rest buffer buffers))"
proof (induction rest arbitrary: buffer buffers)
  case Nil
  show ?case by simp
next
  case (Cons entry rest)
  show ?case
    by (simp add: flush_chunkOf Cons.IH)
qed

lemma flushesAfter_last: "flushesAfter ov buffer entry []"
  by (simp add: flushesAfter_def Let_def)

lemma bufferLoop_partition:
  assumes "\<forall>w\<in>set (buffer @ rest). trim (if wordOriginalText w \<noteq> [] then wordOriginalText w else wordText w) \<noteq> []"
    and "[] \<notin> set buffers"
  shows "concat (fst (bufferLoop ov rest buffer buffers)) @ snd (bufferLoop ov rest buffer buffers)
           = concat buffers @ buffer @ rest
       \<and> [] \<notin> set (fst (bufferLoop ov rest buffer buffers))
       \<and> (rest \<noteq> [] \<longrightarrow> snd (bufferLoop ov rest buffer buffers) = [])"
  using assms
proof (induction rest arbitrary: buffer buffers)
  case Nil
  then show ?case by simp
next
  case (Cons entry rest)
  let ?b = "buffer @ [entry]"
  have wf: "\<forall>w\<in>set ?b. trim (if wordOriginalText w \<noteq> [] then wordOriginalText w else wordText w) \<noteq> []"
    using Cons.prems(1) by auto
  have nonempty: "composeChunkText ?b \<noteq> []"
    by (rule composeChunkText_nonempty[OF _ wf]) simp
  show ?case
  proof (cases "flushesAfter ov ?b entry rest")
    case True
    have fw: "flushWords ?b buffers = buffers @ [?b]"
      using nonempty by (simp add: flushWords_def)
    have p1: "\<forall>w\<in>set ([] @ rest). trim (if wordOriginalText w \<noteq> [] then wordOriginalText w else wordText w) \<noteq> []"
      using Cons.prems(1) by auto
    have p2: "[] \<notin> set (buffers @ [?b])" using Cons.prems(2) by simp
    from Cons.IH[OF p1 p2] True fw show ?thesis
      by (cases rest) auto
  next
    case False
    then have "rest \<noteq> []" using flushesAfter_last by auto
    have p1: "\<forall>w\<in>set (?b @ rest). trim (if wordOriginalText w \<noteq> [] then wordOriginalText w else wordText w) \<noteq> []"
      using Cons.prems(1) by auto
    from Cons.IH[OF p1 Cons.prems(2)] False \<open>rest \<noteq> []\<close> show ?thesis
      by auto
  qed
qed

lemma chunkWords_partition:
  assumes "\<forall>w\<in>set normalized. trim (if wordOriginalText w \<noteq> [] then wordOriginalText w else wordText w) \<noteq> []"
    and "normalized \<noteq> []"
  shows "concat (chunkWords ov normalized) = normalized"
    and "[] \<notin> set (chunkWords ov normalized)"
    and "chunkWords ov normalized \<noteq> []"
proof -
  have a: "\<forall>w\<in>set ([] @ normalized). trim (if wordOriginalText w \<noteq> [] then wordOriginalText w else wordText w) \<noteq> []"
    using assms(1) by simp
  have b: "[] \<notin> set ([] :: wordEntry list list)" by simp
  from bufferLoop_partition[OF a b, of ov] assms(2)
  have c: "concat (fst (bufferLoop ov normalized [] [])) = normalized"
    and d: "[] \<notin> set (fst (bufferLoop ov normalized [] []))"
    and e: "snd (bufferLoop ov normalized [] []) = []"
    by auto
  have cw: "chunkWords ov normalized = fst (bufferLoop ov normalized [] [])"
    using e by (simp add: chunkWords_def flushWords_def Let_def)
  show "concat (chunkWords ov normalized) = normalized" using c cw by simp
  show "[] \<notin> set (chunkWords ov normalized)" using d cw by simp
  show "chunkWords ov normalized \<noteq> []" using c cw assms(2) by auto
qed

lemma normalizeWordEntry_wf:
  assumes "normalizeWordEntry parseFloat entry = Inr (Some w)"
  shows "trim (if wordOriginalText w \<noteq> [] then wordOriginalText w else wordText w) \<noteq> []"
    and "wordText w \<noteq> []"
  using assms
  by (auto simp: normalizeWordEntry_def Let_def trim_idem
           split: if_splits sum.splits jsv.splits prod.splits)

lemma kept_words:
  "w \<in> set (List.map_filter
              (\<lambda>m. case m of Some w \<Rightarrow> if wordText w \<noteq> [] then Some w else None | None \<Rightarrow> None)
              mapped) \<Longrightarrow> Some w \<in> set mapped"
  by (induction mapped) (auto split: option.splits if_splits)

lemma normalizeWordEntries_wf:
  assumes "normalizeWordEntries parseFloat entries = Inr normalized"
  shows "\<forall>w\<in>set normalized. trim (if wordOriginalText w \<noteq> [] then wordOriginalText w else wordText w) \<noteq> []"
proof
  fix w assume mem: "w \<in> set normalized"
  show "trim (if wordOriginalText w \<noteq> [] then wordOriginalText w else wordText w) \<noteq> []"
  proof (cases entries)
    case (JArr es)
    with assms have "\<exists>mapped. mapE (normalizeWordEntry parseFloat) es = Inr mapped
      \<and> normalized = sort_key wordStart (List.map_filter
              (\<lambda>m. case m of Some w \<Rightarrow> if wordText w \<noteq> [] then Some w else None | None \<Rightarrow> None)
              mapped)"
      by (auto simp: normalizeWordEntries_def split: sum.splits)
    then obtain mapped where m: "mapE (normalizeWordEntry parseFloat) es = Inr mapped"
      and n: "normalized = sort_key wordStart (List.map_filter
              (\<lambda>m. case m of Some w \<Rightarrow> if wordText w \<noteq> [] then Some w else None | None \<Rightarrow> None)
              mapped)"
      by blast
    from mem n have "Some w \<in> set mapped" by (auto dest: kept_words)
    from mapE_set[OF m this] obtain e where "normalizeWordEntry parseFloat e = Inr (Some w)" by blast
    then show ?thesis by (rule normalizeWordEntry_wf)
  qed (use assms mem in \<open>auto simp: normalizeWordEntries_def\<close>)
qed

lemma sum_lengths_concat: "sum_list (map length xss) = length (concat xss)"
  by (induction xss) simp_all

lemma kept_count:
  assumes "mapE f es = Inr mapped" and "\<forall>e w. f e = Inr (Some w) \<longrightarrow> P w"
  shows "length (List.map_filter
                   (\<lambda>m. case m of Some w \<Rightarrow> if P w then Some w else None | None \<Rightarrow> None) mapped)
           = length (filter (\<lambda>e. f e \<noteq> Inr None) es)"
  using assms(1)
proof (induction es arbitrary: mapped)
  case Nil
  then show ?case by simp
next
  case (Cons e es)
  from Cons.prems obtain y ys where y: "f e = Inr y" and ys: "mapE f es = Inr ys"
    and mapped: "mapped = y # ys"
    by (auto split: sum.splits)
  show ?case
  proof (cases y)
    case None
    with y mapped Cons.IH[OF ys] show ?thesis by simp
  next
    case (Some w)
    with y assms(2) have "P w" by blast
    with Some y mapped Cons.IH[OF ys] show ?thesis by simp
  qed
qed

lemma words_of_input:
  assumes "normalizeWordEntries parseFloat (JArr es) = Inr normalized"
  shows "length normalized = length (filter (\<lambda>e. normalizeWordEntry parseFloat e \<noteq> Inr None) es)"
proof -
  from assms have "\<exists>mapped. mapE (normalizeWordEntry parseFloat) es = Inr mapped
      \<and> normalized = sort_key wordStart (List.map_filter
              (\<lambda>m. case m of Some w \<Rightarrow> if wordText w \<noteq> [] then Some w else None | None \<Rightarrow> None)
              mapped)"
    by (auto simp: normalizeWordEntries_def split: sum.splits)
  then obtain mapped where m: "mapE (normalizeWordEntry parseFloat) es = Inr mapped"
    and n: "normalized = sort_key wordStart (List.map_filter
              (\<lambda>m. case m of Some w \<Rightarrow> if wordText w \<noteq> [] then Some w else None | None \<Rightarrow> None)
              mapped)"
    by blast
  have "\<forall>e w. normalizeWordEntry parseFloat e = Inr (Some w) \<longrightarrow> wordText w \<noteq> []"
    by (blast dest: normalizeWordEntry_wf(2))
  from kept_count[OF m this] n show ?thesis by simp
qed

lemma trim_samples:
  "trim (js ''Hello'') = js ''Hello''" "trim (js '' world.'') = js ''world.''"
  "trim (js ''Bye'') = js ''Bye''"
  by (simp_all add: trim_def js_def isWhiteSpace_def)

lemma normalize_word_samples:
  "normalizeWordEntry pf (wordObject ''Hello'' 0 1) = Inr (Some (normalizedWord ''Hello'' ''Hello'' 0 1))"
  "normalizeWordEntry pf (wordObject '' world.'' 1 2) = Inr (Some (normalizedWord '' world.'' ''world.'' 1 2))"
  "normalizeWordEntry pf (wordObject ''Bye'' 5 6) = Inr (Some (normalizedWord ''Bye'' ''Bye'' 5 6))"
  by (simp_all add: normalizeWordEntry_def wordObject_def normalizedWord_def js_eq_iff js_Nil_iff
        trim_samples toNumber_def Let_def)

lemma sample_normalizes:
  "normalizeWordEntries pf sampleWords = Inr sampleNormalized"
  by (simp add: normalizeWordEntries_def sampleWords_def sampleNormalized_def normalize_word_samples)
     (simp add: normalizedWord_def js_Nil_iff)

lemmas segment_eval =
  chunkWords_def flushesAfter_def flushWords_def bufferEnd_def
  phraseOverrides_def wordOverrides_def PHRASE_MIN_WORDS_def PHRASE_MAX_WORDS_def
  WORD_MIN_WORDS_def WORD_MAX_WORDS_def PHRASE_MIN_DURATION_def PHRASE_MAX_DURATION_def
  MAX_GAP_BETWEEN_WORD_CHUNKS_def sampleNormalized_def normalizedWord_def Let_def
  composeChunkText_def composeStep_def trim_def isWhiteSpace_def js_def isClosingPunct_def
  isApostrophe_def isDash_def isSentenceEnd_def

lemma sample_phrases:
  "chunkWords phraseOverrides sampleNormalized
     = [[normalizedWord ''Hello'' ''Hello'' 0 1, normalizedWord '' world.'' ''world.'' 1 2],
        [normalizedWord ''Bye'' ''Bye'' 5 6]]"
  by (simp add: segment_eval)

lemma sample_single_words:
  "chunkWords wordOverrides sampleNormalized
     = [[normalizedWord ''Hello'' ''Hello'' 0 1], [normalizedWord '' world.'' ''world.'' 1 2],
        [normalizedWord ''Bye'' ''Bye'' 5 6]]"
  by (simp add: segment_eval)

lemma sample_phrase_chunks:
  "map chunkOf (chunkWords phraseOverrides sampleNormalized)
     = [\<lparr>chunkText = js ''Hello world.'', chunkTimestamp = (0, 2)\<rparr>,
        \<lparr>chunkText = js ''Bye'', chunkTimestamp = (5, 6)\<rparr>]"
  unfolding sample_phrases
  by (simp add: chunkOf_def bufferEnd_def normalizedWord_def composeChunkText_def composeStep_def
        trim_def isWhiteSpace_def js_def isClosingPunct_def isApostrophe_def isDash_def Let_def)

text \<open>
  C5. Whenever \<open>normalizeWordEntries\<close> returns the list \<open>normalized\<close> of the words of the input,
  \<open>groupWordEntries\<close> returns the empty list if \<open>normalized\<close> is empty; otherwise it returns
  the chunks of \<open>chunkWords ov normalized\<close>, of which there is at least one, none is empty, and
  their words, taken in order, are exactly the words of \<open>normalized\<close>: every word is in one
  chunk and in one only, and the numbers of words of the chunks add up to the number of
  words. This holds for any parameters \<open>ov\<close>, so for \<open>phraseOverrides\<close> and \<open>wordOverrides\<close>
  alike. The words of the input are the entries of the array that \<open>normalizeWordEntry\<close>
  keeps (objects with a text that is not blank).
\<close>

theorem groups_cover_words:
  assumes "normalizeWordEntries parseFloat entries = Inr normalized"
  shows "(normalized = [] \<longrightarrow> groupWordEntries parseFloat entries ov = Inr [])
       \<and> (normalized \<noteq> [] \<longrightarrow>
            groupWordEntries parseFloat entries ov = Inr (map chunkOf (chunkWords ov normalized))
          \<and> chunkWords ov normalized \<noteq> []
          \<and> [] \<notin> set (chunkWords ov normalized)
          \<and> concat (chunkWords ov normalized) = normalized
          \<and> sum_list (map length (chunkWords ov normalized)) = length normalized)
       \<and> (\<forall>es. entries = JArr es \<longrightarrow>
            length normalized
              = length (filter (\<lambda>e. normalizeWordEntry parseFloat e \<noteq> Inr None) es))"
proof (intro conjI impI allI)
  fix es assume "entries = JArr es"
  with assms show "length normalized
      = length (filter (\<lambda>e. normalizeWordEntry parseFloat e \<noteq> Inr None) es)"
    by (simp add: words_of_input)
next
  assume "normalized = []"
  with assms show "groupWordEntries parseFloat entries ov = Inr []"
    by (simp add: groupWordEntries_def)
next
  assume ne: "normalized \<noteq> []"
  note wf = normalizeWordEntries_wf[OF assms]
  note part = chunkWords_partition[OF wf ne, of ov]
  show "chunkWords ov normalized \<noteq> []" by (rule part(3))
  show "[] \<notin> set (chunkWords ov normalized)" by (rule part(2))
  show "concat (chunkWords ov normalized) = normalized" by (rule part(1))
  show "sum_list (map length (chunkWords ov normalized)) = length normalized"
    by (simp add: sum_lengths_concat part(1))
  have loop: "groupLoop ov normalized [] [] =
      (map chunkOf (fst (bufferLoop ov normalized [] [])), snd (bufferLoop ov normalized [] []))"
    using groupLoop_bufferLoop[of ov normalized "[]" "[]"] by simp
  have "flush (snd (groupLoop ov normalized [] [])) (fst (groupLoop ov normalized [] []))
          = map chunkOf (chunkWords ov normalized)"
    unfolding loop by (simp add: flush_chunkOf chunkWords_def Let_def)
  with ne part(3) assms show "groupWordEntries parseFloat entries ov = Inr (map chunkOf (chunkWords ov normalized))"
    by (simp add: groupWordEntries_def Let_def)
qed

theorem groups_cover_words_witness:
  "normalizeWordEntries (\<lambda>s. NaN) sampleWords = Inr sampleNormalized
   \<and> groupWordEntries (\<lambda>s. NaN) sampleWords phraseOverrides
       = Inr [\<lparr>chunkText = js ''Hello world.'', chunkTimestamp = (0, 2)\<rparr>,
              \<lparr>chunkText = js ''Bye'', chunkTimestamp = (5, 6)\<rparr>]
   \<and> sum_list (map length (chunkWords phraseOverrides sampleNormalized)) = 3
   \<and> sum_list (map length (chunkWords wordOverrides sampleNormalized)) = 3
   \<and> length (chunkWords wordOverrides sampleNormalized) = 3
   \<and> normalizeWordEntries (\<lambda>s. NaN) (JArr []) = Inr []
   \<and> groupWordEntries (\<lambda>s. NaN) (JArr []) wordOverrides = Inr []"
proof -
  have ne: "sampleNormalized \<noteq> []" by (simp add: sampleNormalized_def)
  have len: "length sampleNormalized = 3" by (simp add: sampleNormalized_def)
  have empty: "normalizeWordEntries (\<lambda>s. NaN) (JArr []) = Inr []"
    by (simp add: normalizeWordEntries_def)
  from groups_cover_words[OF sample_normalizes, of "\<lambda>s. NaN" phraseOverrides] ne len
  have "groupWordEntries (\<lambda>s. NaN) sampleWords phraseOverrides
          = Inr (map chunkOf (chunkWords phraseOverrides sampleNormalized))"
    and "sum_list (map length (chunkWords phraseOverrides sampleNormalized)) = 3"
    by simp_all
  moreover from groups_cover_words[OF sample_normalizes, of "\<lambda>s. NaN" wordOverrides] ne len
  have "sum_list (map length (chunkWords wordOverrides sampleNormalized)) = 3"
    by simp
  moreover have "length (chunkWords wordOverrides sampleNormalized) = 3"
    by (simp add: sample_single_words)
  moreover from groups_cover_words[OF empty, of wordOverrides]
  have "groupWordEntries (\<lambda>s. NaN) (JArr []) wordOverrides = Inr []" by simp
  ultimately show ?thesis
    using sample_normalizes[of "\<lambda>s. NaN"] empty by (simp add: sample_phrase_chunks)
qed

subsection \<open>Cleaning up after a video\<close>

lemma ext_lower: "asciiLower (js ''.MP4'') = js ''.mp4''"
  by (simp add: asciiLower_def js_def)

lemma paths_differ:
  "js ''lesson'' @ js ''.MP4'' \<noteq> js ''a1B2c3D4e5F6g7H8'' @ js ''.mp4''"
  "js ''lesson'' @ js ''-normalized'' @ js ''.MP4'' \<noteq> js ''a1B2c3D4e5F6g7H8'' @ js ''.mp4''"
  "js ''lesson'' @ js ''-normalized'' \<noteq> js ''lesson''"
  by (simp_all add: js_def)


text \<open>
  C7. The claim: when \<open>processVideo\<close> fails, the source video is still on disk when it
  returns. With audio normalization and video compression both switched off,
  \<open>normalizeVideoAudio\<close> returns the source path itself; the orchestrator then
  renames that file to the safe name and makes \<open>normalizedVideoPath\<close> the new path,
  so the guard \<open>normalizedVideoPath !== videoPath\<close> of the \<open>finally\<close> block no
  longer protects it. When the upload then fails, the \<open>finally\<close> block deletes the
  renamed source: \<open>processVideo\<close> throws and the disk holds no file.
\<close>

theorem source_lost_on_failure:
  "processVideo asciiCasing passthroughSettings uploadFails (js ''a1B2c3D4e5F6g7H8'')
     lessonVideo {lessonVideo} = (False, {})"
  by (auto simp add: processVideo_def processVideoTry_def processVideoFinally_def extractAudio_def
        normalizeVideoAudio_def passthroughSettings_def uploadFails_def lessonVideo_def
        basename_def asciiCasing_sel ext_lower js_eq_iff js_Nil_iff paths_differ Let_def)


text \<open>With audio normalization on (the shipped configuration) the same run keeps the source.\<close>

lemma default_keeps: 
  "processVideo asciiCasing defaultSettings uploadFails (js ''a1B2c3D4e5F6g7H8'')
     lessonVideo {lessonVideo} = (False, {lessonVideo})"
  by (auto simp add: processVideo_def processVideoTry_def processVideoFinally_def extractAudio_def
        normalizeVideoAudio_def defaultSettings_def uploadFails_def lessonVideo_def
        basename_def asciiCasing_sel ext_lower js_eq_iff js_Nil_iff paths_differ Let_def)

end
